theory Spec2Isabelle
  imports Main
begin

section \<open>The wallet service of the digital wallet backend\<close>

text \<open>
  A shallow embedding of \<^verbatim>\<open>backend/src/services/walletService.js\<close> together with the
  tables of the schema it reads and writes (\<^verbatim>\<open>users\<close>, \<^verbatim>\<open>wallets\<close>,
  \<^verbatim>\<open>transactions\<close>, \<^verbatim>\<open>daily_limits\<close>, \<^verbatim>\<open>otps\<close>) and the constants of
  \<^verbatim>\<open>config/constants.js\<close>.

  Conventions of the model.
  \<^item> Money. The schema stores every amount in a \<^verbatim>\<open>DECIMAL(15, 2)\<close> column, a whole
    number of hundredths of a rupee. The model counts money in hundredths, as an
    \<open>int\<close>: 100 rupees is \<open>10000\<close>. The doubles of the JavaScript and the rounding
    of a value with more than two decimals at the column are outside the model.
  \<^item> The database. A table with a unique key is a map from that key
    (\<^verbatim>\<open>wallets.user_id\<close>, \<^verbatim>\<open>daily_limits (user_id, date)\<close>); the ledger and the
    OTP table are lists in insertion order. The unique and check constraints of the
    schema are enforced by the write that would violate them
    (\<open>insert_transaction\<close>, \<open>update_wallet_balance\<close>), which then fails as the
    driver's query does, by throwing.
  \<^item> Atomic units. \<^verbatim>\<open>beginTransaction ... commit\<close> is a chain of writes on a working
    copy of the database; a throw inside the \<^verbatim>\<open>try\<close> block reaches the
    \<^verbatim>\<open>catch\<close>, whose \<^verbatim>\<open>rollback\<close> gives back the database as of the last commit.
  \<^item> The outside world. What the code takes from outside is an argument of the
    model: the clock (\<^verbatim>\<open>Date.now()\<close>, \<^verbatim>\<open>NOW()\<close>) in milliseconds, the identifiers
    of \<^verbatim>\<open>uuidv4()\<close>, the digits of \<^verbatim>\<open>generateOTP\<close>, and what the payment gateway
    answers.
  \<^item> Every operation returns its result (\<open>Inl\<close> the error thrown) paired with the
    database it leaves behind.
  \<^item> Left out: the foreign keys of the schema (a wallet, ledger or OTP row of a user
    that does not exist does not occur), the columns no operation of the service reads
    back (\<^verbatim>\<open>metadata\<close>, \<^verbatim>\<open>created_at\<close>, \<^verbatim>\<open>updated_at\<close>), and the range of
    \<^verbatim>\<open>DECIMAL(15, 2)\<close>. A payment method is one of the three values of the column's
    \<^verbatim>\<open>ENUM\<close>.
\<close>

subsection \<open>Constants (config/constants.js)\<close>

type_synonym user_id = nat
type_synonym money = int
type_synonym timestamp = int
type_synonym day = int

datatype transaction_type = ADD_MONEY | TRANSFER_DEBIT | TRANSFER_CREDIT

datatype transaction_status = PENDING | SUCCESS | FAILED

datatype payment_method = UPI | CARD | NET_BANKING

record config =
  MIN_TRANSACTION_AMOUNT :: money
  MAX_TRANSACTION_AMOUNT :: money
  DAILY_TRANSFER_LIMIT :: money
  DAILY_ADD_MONEY_LIMIT :: money
  OTP_VALIDITY_MINUTES :: int

text \<open>The defaults of \<^verbatim>\<open>constants.js\<close> (the values used when the environment sets
  none): 100, 200000, 500000 and 500000 rupees, and five minutes.\<close>

definition default_config :: config where
  "default_config =
     \<lparr> MIN_TRANSACTION_AMOUNT = 10000,
       MAX_TRANSACTION_AMOUNT = 20000000,
       DAILY_TRANSFER_LIMIT = 50000000,
       DAILY_ADD_MONEY_LIMIT = 50000000,
       OTP_VALIDITY_MINUTES = 5 \<rparr>"

subsection \<open>Tables (database/schema.sql)\<close>

record user =
  u_id :: user_id
  u_name :: string
  u_email :: string
  u_is_active :: bool

record wallet =
  w_balance :: money
  w_currency :: string

record txn =
  transaction_id :: string
  idempotency_key :: "string option"
  t_user_id :: user_id
  t_type :: transaction_type
  t_amount :: money
  balance_before :: money
  balance_after :: money
  t_status :: transaction_status
  t_payment_method :: "payment_method option"
  counterparty_user_id :: "user_id option"
  counterparty_transaction_id :: "string option"
  failure_reason :: "string option"

record daily_limit =
  total_added :: money
  total_transferred :: money

record otp_row =
  o_user_id :: user_id
  otp_code :: string
  purpose :: string
  reference_id :: string
  is_used :: bool
  expires_at :: timestamp

text \<open>The row of \<^verbatim>\<open>otps\<close> at position \<open>i\<close> of the list is the row whose
  \<^verbatim>\<open>AUTO_INCREMENT\<close> primary key is \<open>i\<close>: the service only appends to the table.\<close>

record db =
  users :: "user list"
  wallets :: "user_id \<rightharpoonup> wallet"
  transactions :: "txn list"
  daily_limits :: "(user_id \<times> day) \<rightharpoonup> daily_limit"
  otps :: "otp_row list"

subsection \<open>Errors and results\<close>

datatype db_error = ER_DUP_ENTRY | ER_CHECK_CONSTRAINT_VIOLATED

datatype error =
    WalletNotFound
  | MinimumAmount
  | MaximumAmount
  | DecimalPlaces
  | DailyAddMoneyLimitExceeded
  | DailyTransferLimitExceeded
  | RecipientNotFound
  | CannotTransferToYourself
  | InsufficientBalance
  | InvalidOrExpiredOTP
  | DbError db_error
  | GatewayError

text \<open>What \<^verbatim>\<open>addMoney\<close> and \<^verbatim>\<open>transfer\<close> return: \<^verbatim>\<open>success\<close>, \<^verbatim>\<open>message\<close>, the
  fields of \<^verbatim>\<open>transaction\<close> (its id is \<^verbatim>\<open>id\<close> in a fresh answer and
  \<^verbatim>\<open>transaction_id\<close> in a cached one) and \<^verbatim>\<open>isDuplicate\<close>, which only a cached
  answer sets.\<close>

record response =
  success :: bool
  message :: string
  r_transaction_id :: string
  r_amount :: money
  r_balance :: money
  r_status :: transaction_status
  isDuplicate :: bool

text \<open>What \<^verbatim>\<open>generateTransferOTP\<close> returns: the reference id and the recipient. The
  \<^verbatim>\<open>otp\<close> field that the development environment adds to the answer is left out.\<close>

record otp_response =
  g_referenceId :: string
  g_recipient_name :: string
  g_recipient_email :: string

subsection \<open>Time\<close>

text \<open>\<^verbatim>\<open>new Date().toISOString().split('T')[0]\<close>: the UTC calendar day of a clock
  reading in milliseconds.\<close>

definition today :: "timestamp \<Rightarrow> day" where
  "today now = now div 86400000"

subsection \<open>Storage primitives\<close>

text \<open>\<^verbatim>\<open>UPDATE wallets SET balance = ? WHERE user_id = ?\<close>. A user without a wallet
  row matches nothing; \<^verbatim>\<open>chk_positive_balance CHECK (balance >= 0)\<close> rejects a
  negative balance.\<close>

definition update_wallet_balance :: "db \<Rightarrow> money \<Rightarrow> user_id \<Rightarrow> db_error + db" where
  "update_wallet_balance d newBalance userId =
     (case wallets d userId of
        None \<Rightarrow> Inr d
      | Some w \<Rightarrow>
          if newBalance < 0 then Inl ER_CHECK_CONSTRAINT_VIOLATED
          else Inr (d\<lparr>wallets := (wallets d)(userId \<mapsto> w\<lparr>w_balance := newBalance\<rparr>)\<rparr>))"

text \<open>\<^verbatim>\<open>INSERT INTO transactions ...\<close>. \<^verbatim>\<open>transaction_id\<close> is \<^verbatim>\<open>UNIQUE NOT NULL\<close>,
  \<^verbatim>\<open>idempotency_key\<close> is \<^verbatim>\<open>UNIQUE\<close> (any number of rows may leave it
  \<^verbatim>\<open>NULL\<close>), and \<^verbatim>\<open>chk_positive_amount CHECK (amount > 0)\<close>.\<close>

definition insert_transaction :: "db \<Rightarrow> txn \<Rightarrow> db_error + db" where
  "insert_transaction d row =
     (if transaction_id row \<in> set (map transaction_id (transactions d))
        then Inl ER_DUP_ENTRY
      else if idempotency_key row \<noteq> None
              \<and> idempotency_key row \<in> set (map idempotency_key (transactions d))
        then Inl ER_DUP_ENTRY
      else if t_amount row \<le> 0 then Inl ER_CHECK_CONSTRAINT_VIOLATED
      else Inr (d\<lparr>transactions := transactions d @ [row]\<rparr>))"

text \<open>\<^verbatim>\<open>UPDATE transactions SET status = ?, balance_after = ?, metadata = ?
  WHERE transaction_id = ?\<close> and \<^verbatim>\<open>UPDATE transactions SET status = ?,
  failure_reason = ? WHERE transaction_id = ?\<close>.\<close>

definition set_transaction_success :: "db \<Rightarrow> string \<Rightarrow> money \<Rightarrow> db" where
  "set_transaction_success d transactionId newBalance =
     d\<lparr>transactions :=
         map (\<lambda>t. if transaction_id t = transactionId
                  then t\<lparr>t_status := SUCCESS, balance_after := newBalance\<rparr> else t)
             (transactions d)\<rparr>"

definition set_transaction_failed :: "db \<Rightarrow> string \<Rightarrow> string \<Rightarrow> db" where
  "set_transaction_failed d transactionId reason =
     d\<lparr>transactions :=
         map (\<lambda>t. if transaction_id t = transactionId
                  then t\<lparr>t_status := FAILED, failure_reason := Some reason\<rparr> else t)
             (transactions d)\<rparr>"

subsection \<open>getBalance\<close>

definition getBalance :: "db \<Rightarrow> user_id \<Rightarrow> error + wallet" where
  "getBalance d userId =
     (case wallets d userId of None \<Rightarrow> Inl WalletNotFound | Some w \<Rightarrow> Inr w)"

subsection \<open>validateAmount, checkIdempotency and the daily limits\<close>

text \<open>The third test of \<^verbatim>\<open>validateAmount\<close> matches \<^verbatim>\<open>amount.toString()\<close> against
  the pattern \<^verbatim>\<open>^[0-9]+(.[0-9]{1,2})?$\<close> (its dot escaped): digits, then at most two
  fractional digits. Every amount of
  the model is a whole number of hundredths, so what is left of the test is what the
  pattern refuses besides: a minus sign, and the exponent notation that \<^verbatim>\<open>toString\<close>
  uses from \<open>10\<^sup>2\<^sup>1\<close> rupees on.\<close>

definition validateAmount :: "config \<Rightarrow> money \<Rightarrow> error + unit" where
  "validateAmount cfg amount =
     (if amount < MIN_TRANSACTION_AMOUNT cfg then Inl MinimumAmount
      else if amount > MAX_TRANSACTION_AMOUNT cfg then Inl MaximumAmount
      else if amount < 0 \<or> 100000000000000000000000 \<le> amount then Inl DecimalPlaces
      else Inr ())"

text \<open>\<^verbatim>\<open>if (!idempotencyKey) return null\<close>: an absent key and the empty string are
  both falsy. Otherwise the first ledger row under the key is the cached answer.\<close>

definition cached_response :: "txn \<Rightarrow> response" where
  "cached_response t =
     \<lparr> success = (t_status t = SUCCESS),
       message = ''Duplicate request - returning cached response'',
       r_transaction_id = transaction_id t,
       r_amount = t_amount t,
       r_balance = balance_after t,
       r_status = t_status t,
       isDuplicate = True \<rparr>"

definition checkIdempotency :: "db \<Rightarrow> string option \<Rightarrow> response option" where
  "checkIdempotency d idempotencyKey =
     (case idempotencyKey of
        None \<Rightarrow> None
      | Some k \<Rightarrow>
          if k = [] then None
          else (case filter (\<lambda>t. idempotency_key t = Some k) (transactions d) of
                  [] \<Rightarrow> None
                | t # _ \<Rightarrow> Some (cached_response t)))"

definition checkDailyAddMoneyLimit :: "config \<Rightarrow> db \<Rightarrow> user_id \<Rightarrow> money \<Rightarrow> timestamp \<Rightarrow> error + unit" where
  "checkDailyAddMoneyLimit cfg d userId amount now =
     (let totalAdded = (case daily_limits d (userId, today now) of
                          None \<Rightarrow> 0 | Some l \<Rightarrow> total_added l)
      in if totalAdded + amount > DAILY_ADD_MONEY_LIMIT cfg
         then Inl DailyAddMoneyLimitExceeded else Inr ())"

definition checkDailyTransferLimit :: "config \<Rightarrow> db \<Rightarrow> user_id \<Rightarrow> money \<Rightarrow> timestamp \<Rightarrow> error + unit" where
  "checkDailyTransferLimit cfg d userId amount now =
     (let totalTransferred = (case daily_limits d (userId, today now) of
                                None \<Rightarrow> 0 | Some l \<Rightarrow> total_transferred l)
      in if totalTransferred + amount > DAILY_TRANSFER_LIMIT cfg
         then Inl DailyTransferLimitExceeded else Inr ())"

text \<open>\<^verbatim>\<open>INSERT INTO daily_limits (user_id, date, column) VALUES (?, ?, ?)
  ON DUPLICATE KEY UPDATE column = column + ?\<close>: a new row holds the amount in the
  named column and the default 0.00 in the other.\<close>

datatype limit_column = TOTAL_ADDED | TOTAL_TRANSFERRED

definition updateDailyLimit :: "db \<Rightarrow> user_id \<Rightarrow> limit_column \<Rightarrow> money \<Rightarrow> timestamp \<Rightarrow> db" where
  "updateDailyLimit d userId column amount now =
     (let key = (userId, today now);
          row = (case daily_limits d key of
                   None \<Rightarrow>
                     (case column of
                        TOTAL_ADDED \<Rightarrow> \<lparr>total_added = amount, total_transferred = 0\<rparr>
                      | TOTAL_TRANSFERRED \<Rightarrow> \<lparr>total_added = 0, total_transferred = amount\<rparr>)
                 | Some l \<Rightarrow>
                     (case column of
                        TOTAL_ADDED \<Rightarrow> l\<lparr>total_added := total_added l + amount\<rparr>
                      | TOTAL_TRANSFERRED \<Rightarrow> l\<lparr>total_transferred := total_transferred l + amount\<rparr>))
      in d\<lparr>daily_limits := (daily_limits d)(key \<mapsto> row)\<rparr>)"

subsection \<open>The payment gateway (services/paymentGateway.js)\<close>

text \<open>\<^verbatim>\<open>processPayment\<close> waits, draws a random number and resolves to a success or
  to a failure object; which one is an argument of the model. \<open>Rejected\<close> is the
  awaited promise rejecting (the call throwing) instead of resolving.\<close>

record payment_result =
  pr_success :: bool
  pr_message :: string

datatype gateway_outcome = Resolved payment_result | Rejected

subsection \<open>addMoney\<close>

text \<open>The first part of \<^verbatim>\<open>addMoney\<close>, up to the first \<^verbatim>\<open>commit\<close>: validation, the
  daily limit, the idempotency lookup, then atomic unit 1, which reads the balance
  under \<^verbatim>\<open>FOR UPDATE\<close> and inserts the \<open>PENDING\<close> row. It ends with a cached
  answer or with the balance it read, which the second part uses.\<close>

datatype unit1_outcome = Cached response | Pending money

definition pending_row :: "string \<Rightarrow> string option \<Rightarrow> user_id \<Rightarrow> money \<Rightarrow> money \<Rightarrow> payment_method \<Rightarrow> txn" where
  "pending_row transactionId idempotencyKey userId amount currentBalance paymentMethod =
     \<lparr> transaction_id = transactionId,
       idempotency_key = idempotencyKey,
       t_user_id = userId,
       t_type = ADD_MONEY,
       t_amount = amount,
       balance_before = currentBalance,
       balance_after = currentBalance,
       t_status = PENDING,
       t_payment_method = Some paymentMethod,
       counterparty_user_id = None,
       counterparty_transaction_id = None,
       failure_reason = None \<rparr>"

definition addMoney_unit1 ::
  "config \<Rightarrow> db \<Rightarrow> user_id \<Rightarrow> money \<Rightarrow> payment_method \<Rightarrow> string option \<Rightarrow> string
     \<Rightarrow> timestamp \<Rightarrow> (error + unit1_outcome) \<times> db" where
  "addMoney_unit1 cfg d userId amount paymentMethod idempotencyKey transactionId now =
     (case validateAmount cfg amount of
        Inl e \<Rightarrow> (Inl e, d)
      | Inr _ \<Rightarrow>
     (case checkDailyAddMoneyLimit cfg d userId amount now of
        Inl e \<Rightarrow> (Inl e, d)
      | Inr _ \<Rightarrow>
     (case checkIdempotency d idempotencyKey of
        Some existingTransaction \<Rightarrow> (Inr (Cached existingTransaction), d)
      | None \<Rightarrow>
     (case wallets d userId of
        None \<Rightarrow> (Inl WalletNotFound, d)
      | Some w \<Rightarrow>
          (let currentBalance = w_balance w in
           case insert_transaction d
                  (pending_row transactionId idempotencyKey userId amount currentBalance
                     paymentMethod) of
             Inl e \<Rightarrow> (Inl (DbError e), d)
           | Inr d1 \<Rightarrow> (Inr (Pending currentBalance), d1))))))"

text \<open>The second part, after the gateway has answered: atomic unit 2. The new balance
  is computed from \<open>currentBalance\<close>, the value unit 1 read; unit 2 reads no wallet
  row.\<close>

definition addMoney_unit2 ::
  "db \<Rightarrow> user_id \<Rightarrow> money \<Rightarrow> payment_method \<Rightarrow> string \<Rightarrow> money \<Rightarrow> payment_result
     \<Rightarrow> timestamp \<Rightarrow> (error + response) \<times> db" where
  "addMoney_unit2 d userId amount paymentMethod transactionId currentBalance paymentResult now =
     (if pr_success paymentResult then
        (let newBalance = currentBalance + amount in
         case update_wallet_balance d newBalance userId of
           Inl e \<Rightarrow> (Inl (DbError e), d)
         | Inr d1 \<Rightarrow>
             (let d2 = set_transaction_success d1 transactionId newBalance;
                  d3 = updateDailyLimit d2 userId TOTAL_ADDED amount now
              in (Inr \<lparr> success = True,
                         message = pr_message paymentResult,
                         r_transaction_id = transactionId,
                         r_amount = amount,
                         r_balance = newBalance,
                         r_status = SUCCESS,
                         isDuplicate = False \<rparr>, d3)))
      else
        (let d1 = set_transaction_failed d transactionId (pr_message paymentResult)
         in (Inr \<lparr> success = False,
                    message = pr_message paymentResult,
                    r_transaction_id = transactionId,
                    r_amount = amount,
                    r_balance = currentBalance,
                    r_status = FAILED,
                    isDuplicate = False \<rparr>, d1)))"

text \<open>One call of \<^verbatim>\<open>addMoney\<close> with no other request in between. When the gateway
  call throws, the \<^verbatim>\<open>catch\<close> block rolls back (unit 1 is already committed, so
  there is nothing to undo) and rethrows.\<close>

definition addMoney ::
  "config \<Rightarrow> db \<Rightarrow> user_id \<Rightarrow> money \<Rightarrow> payment_method \<Rightarrow> string option \<Rightarrow> string
     \<Rightarrow> timestamp \<Rightarrow> gateway_outcome \<Rightarrow> timestamp \<Rightarrow> (error + response) \<times> db" where
  "addMoney cfg d userId amount paymentMethod idempotencyKey transactionId now gateway now' =
     (case addMoney_unit1 cfg d userId amount paymentMethod idempotencyKey transactionId now of
        (Inl e, d1) \<Rightarrow> (Inl e, d1)
      | (Inr (Cached existingTransaction), d1) \<Rightarrow> (Inr existingTransaction, d1)
      | (Inr (Pending currentBalance), d1) \<Rightarrow>
          (case gateway of
             Rejected \<Rightarrow> (Inl GatewayError, d1)
           | Resolved paymentResult \<Rightarrow>
               addMoney_unit2 d1 userId amount paymentMethod transactionId currentBalance
                 paymentResult now'))"

subsection \<open>generateTransferOTP\<close>

text \<open>\<^verbatim>\<open>SELECT id, name FROM users WHERE email = ? AND is_active = TRUE\<close>.\<close>

definition find_active_users :: "db \<Rightarrow> string \<Rightarrow> user list" where
  "find_active_users d toEmail =
     filter (\<lambda>u. u_email u = toEmail \<and> u_is_active u) (users d)"

definition generateTransferOTP ::
  "config \<Rightarrow> db \<Rightarrow> user_id \<Rightarrow> string \<Rightarrow> money \<Rightarrow> string \<Rightarrow> string \<Rightarrow> timestamp
     \<Rightarrow> (error + otp_response) \<times> db" where
  "generateTransferOTP cfg d userId toEmail amount otp referenceId now =
     (case validateAmount cfg amount of
        Inl e \<Rightarrow> (Inl e, d)
      | Inr _ \<Rightarrow>
     (case find_active_users d toEmail of
        [] \<Rightarrow> (Inl RecipientNotFound, d)
      | recipient # _ \<Rightarrow>
          if u_id recipient = userId then (Inl CannotTransferToYourself, d)
          else
     (case wallets d userId of
        None \<Rightarrow> (Inl InsufficientBalance, d)
      | Some w \<Rightarrow>
          if w_balance w < amount then (Inl InsufficientBalance, d)
          else
     (case checkDailyTransferLimit cfg d userId amount now of
        Inl e \<Rightarrow> (Inl e, d)
      | Inr _ \<Rightarrow>
          (let expiresAt = now + OTP_VALIDITY_MINUTES cfg * 60 * 1000;
               row = \<lparr> o_user_id = userId, otp_code = otp, purpose = ''TRANSFER'',
                       reference_id = referenceId, is_used = False,
                       expires_at = expiresAt \<rparr>
           in (Inr \<lparr> g_referenceId = referenceId,
                      g_recipient_name = u_name recipient,
                      g_recipient_email = toEmail \<rparr>,
               d\<lparr>otps := otps d @ [row]\<rparr>))))))"

subsection \<open>transfer\<close>

text \<open>\<^verbatim>\<open>SELECT id FROM otps WHERE user_id = ? AND reference_id = ? AND otp_code = ?
  AND is_used = FALSE AND expires_at > NOW()\<close>: the ids of the matching rows.\<close>

definition otp_matches :: "user_id \<Rightarrow> string \<Rightarrow> string \<Rightarrow> timestamp \<Rightarrow> otp_row \<Rightarrow> bool" where
  "otp_matches userId referenceId otp now r =
     (o_user_id r = userId \<and> reference_id r = referenceId \<and> otp_code r = otp
      \<and> is_used r = False \<and> expires_at r > now)"

definition select_otps :: "db \<Rightarrow> user_id \<Rightarrow> string \<Rightarrow> string \<Rightarrow> timestamp \<Rightarrow> nat list" where
  "select_otps d userId referenceId otp now =
     filter (\<lambda>i. otp_matches userId referenceId otp now (otps d ! i)) [0..<length (otps d)]"

text \<open>\<^verbatim>\<open>UPDATE otps SET is_used = TRUE WHERE id = ?\<close>.\<close>

definition mark_otp_used :: "db \<Rightarrow> nat \<Rightarrow> db" where
  "mark_otp_used d i =
     (if i < length (otps d)
      then d\<lparr>otps := (otps d)[i := (otps d ! i)\<lparr>is_used := True\<rparr>]\<rparr>
      else d)"

text \<open>\<^verbatim>\<open>SELECT user_id, balance FROM wallets WHERE user_id IN (?, ?) FOR UPDATE\<close>:
  the rows of the wallets named, each once.\<close>

definition select_wallets_for_update :: "db \<Rightarrow> user_id list \<Rightarrow> (user_id \<times> money) list" where
  "select_wallets_for_update d userIds =
     concat (map (\<lambda>u. case wallets d u of None \<Rightarrow> [] | Some w \<Rightarrow> [(u, w_balance w)])
                 (remdups userIds))"

definition debit_row :: "string \<Rightarrow> string option \<Rightarrow> user_id \<Rightarrow> money \<Rightarrow> money \<Rightarrow> money \<Rightarrow> user_id \<Rightarrow> string \<Rightarrow> txn" where
  "debit_row debitTransactionId idempotencyKey userId amount senderBalance newSenderBalance
     recipientId creditTransactionId =
     \<lparr> transaction_id = debitTransactionId,
       idempotency_key = idempotencyKey,
       t_user_id = userId,
       t_type = TRANSFER_DEBIT,
       t_amount = amount,
       balance_before = senderBalance,
       balance_after = newSenderBalance,
       t_status = SUCCESS,
       t_payment_method = None,
       counterparty_user_id = Some recipientId,
       counterparty_transaction_id = Some creditTransactionId,
       failure_reason = None \<rparr>"

definition credit_row :: "string \<Rightarrow> user_id \<Rightarrow> money \<Rightarrow> money \<Rightarrow> money \<Rightarrow> user_id \<Rightarrow> string \<Rightarrow> txn" where
  "credit_row creditTransactionId recipientId amount recipientBalance newRecipientBalance
     userId debitTransactionId =
     \<lparr> transaction_id = creditTransactionId,
       idempotency_key = None,
       t_user_id = recipientId,
       t_type = TRANSFER_CREDIT,
       t_amount = amount,
       balance_before = recipientBalance,
       balance_after = newRecipientBalance,
       t_status = SUCCESS,
       t_payment_method = None,
       counterparty_user_id = Some userId,
       counterparty_transaction_id = Some debitTransactionId,
       failure_reason = None \<rparr>"

text \<open>The object \<^verbatim>\<open>transfer\<close> returns after its \<^verbatim>\<open>commit\<close>.\<close>

definition transfer_response :: "string \<Rightarrow> money \<Rightarrow> money \<Rightarrow> response" where
  "transfer_response debitTransactionId amount newSenderBalance =
     \<lparr> success = True,
       message = ''Transfer successful'',
       r_transaction_id = debitTransactionId,
       r_amount = amount,
       r_balance = newSenderBalance,
       r_status = SUCCESS,
       isDuplicate = False \<rparr>"

text \<open>The body of the \<^verbatim>\<open>try\<close> block of \<^verbatim>\<open>transfer\<close>, from \<^verbatim>\<open>beginTransaction\<close> to
  \<^verbatim>\<open>commit\<close>: \<open>Inl\<close> is a throw inside the atomic unit, \<open>Inr\<close> the answer with the
  database to commit. \<open>otpId\<close> is \<^verbatim>\<open>otps[0].id\<close>.\<close>

definition transfer_unit ::
  "db \<Rightarrow> user_id \<Rightarrow> string \<Rightarrow> money \<Rightarrow> nat \<Rightarrow> string option \<Rightarrow> string \<Rightarrow> string
     \<Rightarrow> timestamp \<Rightarrow> error + (response \<times> db)" where
  "transfer_unit d userId toEmail amount otpId idempotencyKey debitTransactionId
     creditTransactionId now =
     (case find_active_users d toEmail of
        [] \<Rightarrow> Inl RecipientNotFound
      | recipient # _ \<Rightarrow>
     (let recipientId = u_id recipient;
          userIds = sort [userId, recipientId];
          rows = select_wallets_for_update d userIds
      in
     (case (find (\<lambda>w. fst w = userId) rows, find (\<lambda>w. fst w = recipientId) rows) of
        (Some senderWallet, Some recipientWallet) \<Rightarrow>
          (let senderBalance = snd senderWallet;
               recipientBalance = snd recipientWallet
           in
           if senderBalance < amount then Inl InsufficientBalance
           else
          (let newSenderBalance = senderBalance - amount;
               newRecipientBalance = recipientBalance + amount
           in
          (case update_wallet_balance d newSenderBalance userId of
             Inl e \<Rightarrow> Inl (DbError e)
           | Inr d1 \<Rightarrow>
          (case update_wallet_balance d1 newRecipientBalance recipientId of
             Inl e \<Rightarrow> Inl (DbError e)
           | Inr d2 \<Rightarrow>
          (case insert_transaction d2
                  (debit_row debitTransactionId idempotencyKey userId amount senderBalance
                     newSenderBalance recipientId creditTransactionId) of
             Inl e \<Rightarrow> Inl (DbError e)
           | Inr d3 \<Rightarrow>
          (case insert_transaction d3
                  (credit_row creditTransactionId recipientId amount recipientBalance
                     newRecipientBalance userId debitTransactionId) of
             Inl e \<Rightarrow> Inl (DbError e)
           | Inr d4 \<Rightarrow>
              (let d5 = mark_otp_used d4 otpId;
                   d6 = updateDailyLimit d5 userId TOTAL_TRANSFERRED amount now
               in Inr (transfer_response debitTransactionId amount newSenderBalance,
                       d6))))))))
      | _ \<Rightarrow> Inl WalletNotFound)))"

text \<open>\<^verbatim>\<open>transfer\<close>: the OTP lookup, the idempotency lookup, then the atomic unit; a
  throw inside the unit rolls it back and is rethrown.\<close>

definition transfer ::
  "db \<Rightarrow> user_id \<Rightarrow> string \<Rightarrow> money \<Rightarrow> string \<Rightarrow> string \<Rightarrow> string option \<Rightarrow> string
     \<Rightarrow> string \<Rightarrow> timestamp \<Rightarrow> (error + response) \<times> db" where
  "transfer d userId toEmail amount otp referenceId idempotencyKey debitTransactionId
     creditTransactionId now =
     (case select_otps d userId referenceId otp now of
        [] \<Rightarrow> (Inl InvalidOrExpiredOTP, d)
      | otpId # _ \<Rightarrow>
     (case checkIdempotency d idempotencyKey of
        Some existingTransaction \<Rightarrow> (Inr existingTransaction, d)
      | None \<Rightarrow>
     (case transfer_unit d userId toEmail amount otpId idempotencyKey debitTransactionId
             creditTransactionId now of
        Inl e \<Rightarrow> (Inl e, d)
      | Inr (result, d') \<Rightarrow> (Inr result, d'))))"

subsection \<open>Sequences of requests\<close>

text \<open>A request to the service with everything it takes from outside. \<open>exec\<close> is the
  database one request leaves behind, \<open>run\<close> the database after a sequence of
  requests served one after the other.\<close>

datatype op =
    OpGetBalance user_id
  | OpAddMoney user_id money payment_method "string option" string timestamp
      gateway_outcome timestamp
  | OpGenerateTransferOTP user_id string money string string timestamp
  | OpTransfer user_id string money string string "string option" string string timestamp

fun exec :: "config \<Rightarrow> db \<Rightarrow> op \<Rightarrow> db" where
  "exec cfg d (OpGetBalance userId) = d"
| "exec cfg d (OpAddMoney userId amount paymentMethod idempotencyKey transactionId now
      gateway now') =
     snd (addMoney cfg d userId amount paymentMethod idempotencyKey transactionId now
            gateway now')"
| "exec cfg d (OpGenerateTransferOTP userId toEmail amount otp referenceId now) =
     snd (generateTransferOTP cfg d userId toEmail amount otp referenceId now)"
| "exec cfg d (OpTransfer userId toEmail amount otp referenceId idempotencyKey
      debitTransactionId creditTransactionId now) =
     snd (transfer d userId toEmail amount otp referenceId idempotencyKey
            debitTransactionId creditTransactionId now)"

definition run :: "config \<Rightarrow> db \<Rightarrow> op list \<Rightarrow> db" where
  "run cfg d ops = foldl (exec cfg) d ops"

subsection \<open>Predicates on the database and an example database\<close>

text \<open>No wallet holds a negative balance.\<close>

definition wallets_nonneg :: "db \<Rightarrow> bool" where
  "wallets_nonneg d = (\<forall>u w. wallets d u = Some w \<longrightarrow> 0 \<le> w_balance w)"

text \<open>Three registered users: Alice holds 1000.00, Bob 500.00 and Carol nothing; the
  ledger, the daily limits and the OTP table are empty.\<close>

definition demo_db :: db where
  "demo_db =
     \<lparr> users =
         [\<lparr>u_id = 1, u_name = ''Alice'', u_email = ''a@x.com'', u_is_active = True\<rparr>,
          \<lparr>u_id = 2, u_name = ''Bob'', u_email = ''b@x.com'', u_is_active = True\<rparr>,
          \<lparr>u_id = 3, u_name = ''Carol'', u_email = ''c@x.com'', u_is_active = True\<rparr>],
       wallets =
         [1 \<mapsto> \<lparr>w_balance = 100000, w_currency = ''INR''\<rparr>,
          2 \<mapsto> \<lparr>w_balance = 50000, w_currency = ''INR''\<rparr>,
          3 \<mapsto> \<lparr>w_balance = 0, w_currency = ''INR''\<rparr>],
       transactions = [],
       daily_limits = Map.empty,
       otps = [] \<rparr>"

text \<open>The same database after Alice has asked for an OTP to send 100.00 to Bob: one
  unused OTP row for her, with code 123456 and reference ref1, valid for five
  minutes.\<close>

definition otp_issued_db :: db where
  "otp_issued_db =
     run default_config demo_db
       [OpGenerateTransferOTP 1 ''b@x.com'' 10000 ''123456'' ''ref1'' 1000]"

text \<open>Two answers of the gateway.\<close>

definition paid :: payment_result where
  "paid = \<lparr>pr_success = True, pr_message = ''Payment successful via UPI''\<rparr>"

definition declined :: payment_result where
  "declined = \<lparr>pr_success = False, pr_message = ''UPI transaction declined by bank''\<rparr>"

text \<open>The database after Alice's transfer of 100.00 to Bob under the idempotency key
  k1 has committed, and the database after she has added 200000.00 twice on one day,
  under the keys k1 and k2.\<close>

definition transferred_db :: db where
  "transferred_db =
     run default_config otp_issued_db
       [OpTransfer 1 ''b@x.com'' 10000 ''123456'' ''ref1'' (Some ''k1'') ''t1'' ''t2'' 2000]"

definition added_twice_db :: db where
  "added_twice_db =
     run default_config demo_db
       [OpAddMoney 1 20000000 UPI (Some ''k1'') ''t1'' 1000 (Resolved paid) 2000,
        OpAddMoney 1 20000000 UPI (Some ''k2'') ''t2'' 3000 (Resolved paid) 4000]"

text \<open>\<open>issues cfg x r\<close>: the request \<open>x\<close> is a \<^verbatim>\<open>generateTransferOTP\<close> call that
  inserts the OTP row \<open>r\<close> (up to its \<^verbatim>\<open>is_used\<close> flag) when it succeeds.
  \<open>same_otp\<close>: two rows that differ at most in \<^verbatim>\<open>is_used\<close>.\<close>

fun issues :: "config \<Rightarrow> op \<Rightarrow> otp_row \<Rightarrow> bool" where
  "issues cfg (OpGenerateTransferOTP userId toEmail amount otp referenceId now) r =
     (o_user_id r = userId \<and> otp_code r = otp \<and> reference_id r = referenceId
      \<and> expires_at r = now + OTP_VALIDITY_MINUTES cfg * 60 * 1000)"
| "issues cfg (OpGetBalance userId) r = False"
| "issues cfg (OpAddMoney userId amount paymentMethod idempotencyKey transactionId now
      gateway now') r = False"
| "issues cfg (OpTransfer userId toEmail amount otp referenceId idempotencyKey
      debitTransactionId creditTransactionId now) r = False"

definition same_otp :: "otp_row \<Rightarrow> otp_row \<Rightarrow> bool" where
  "same_otp r0 r = (o_user_id r0 = o_user_id r \<and> otp_code r0 = otp_code r
     \<and> reference_id r0 = reference_id r \<and> expires_at r0 = expires_at r)"

text \<open>\<open>is_pair dr cr\<close>: the row \<open>cr\<close> is the credit side of the debit row \<open>dr\<close>:
  a \<open>TRANSFER_CREDIT\<close> of the same amount, owner and counterparty swapped, each
  \<^verbatim>\<open>counterparty_transaction_id\<close> naming the other row. \<open>names_debit cr dr\<close> asks
  less of \<open>cr\<close>: it is a \<open>TRANSFER_CREDIT\<close> whose \<^verbatim>\<open>counterparty_transaction_id\<close>
  is the id of \<open>dr\<close>, whatever its amount and owner are.

  \<open>transfers_paired\<close>: the ledger, in insertion order, is made of rows that are neither
  \<open>TRANSFER_DEBIT\<close> nor \<open>TRANSFER_CREDIT\<close> and of blocks of two rows, a
  \<open>TRANSFER_DEBIT\<close> and right after it its credit side; so a \<open>TRANSFER_CREDIT\<close> row
  occurs only as the second row of such a block. \<open>ledger_ok\<close> adds that no two rows
  share a \<^verbatim>\<open>transaction_id\<close>.\<close>

definition is_pair :: "txn \<Rightarrow> txn \<Rightarrow> bool" where
  "is_pair dr cr =
     (t_type cr = TRANSFER_CREDIT \<and> t_amount cr = t_amount dr
      \<and> counterparty_user_id dr = Some (t_user_id cr)
      \<and> counterparty_user_id cr = Some (t_user_id dr)
      \<and> counterparty_transaction_id dr = Some (transaction_id cr)
      \<and> counterparty_transaction_id cr = Some (transaction_id dr))"

definition names_debit :: "txn \<Rightarrow> txn \<Rightarrow> bool" where
  "names_debit cr dr =
     (t_type cr = TRANSFER_CREDIT \<and> counterparty_transaction_id cr = Some (transaction_id dr))"

fun transfers_paired :: "txn list \<Rightarrow> bool" where
  "transfers_paired [] = True"
| "transfers_paired (t # ts) =
     (if t_type t = TRANSFER_DEBIT
      then (case ts of [] \<Rightarrow> False | c # rest \<Rightarrow> is_pair t c \<and> transfers_paired rest)
      else t_type t \<noteq> TRANSFER_CREDIT \<and> transfers_paired ts)"

definition ledger_ok :: "db \<Rightarrow> bool" where
  "ledger_ok d =
     (distinct (map transaction_id (transactions d)) \<and> transfers_paired (transactions d))"

text \<open>Two \<^verbatim>\<open>addMoney\<close> requests of Alice, A and B, of 500.00 each, in flight at the
  same time: both have committed their unit 1 (each read the balance 1000.00) and wait
  for the gateway; then A's unit 2 has committed.\<close>

definition two_pending_db :: db where
  "two_pending_db =
     snd (addMoney_unit1 default_config
            (snd (addMoney_unit1 default_config demo_db 1 50000 UPI (Some ''kA'') ''tA'' 1000))
            1 50000 CARD (Some ''kB'') ''tB'' 1100)"

definition first_finalized_db :: db where
  "first_finalized_db = snd (addMoney_unit2 two_pending_db 1 50000 UPI ''tA'' 100000 paid 2000)"

text \<open>What a user has added on a day according to \<^verbatim>\<open>daily_limits\<close>: the
  \<^verbatim>\<open>total_added\<close> of the row, and 0 when the day has no row. This is the value
  \<open>checkDailyAddMoneyLimit\<close> compares.\<close>

definition added_so_far :: "db \<Rightarrow> user_id \<Rightarrow> day \<Rightarrow> money" where
  "added_so_far d userId dy =
     (case daily_limits d (userId, dy) of None \<Rightarrow> 0 | Some l \<Rightarrow> total_added l)"

text \<open>\<open>reissues ref x\<close>: the request \<open>x\<close> is a \<^verbatim>\<open>generateTransferOTP\<close> call that draws
  the reference id \<open>ref\<close>. \<open>ref_spent d ref\<close>: every OTP row of \<open>d\<close> with the reference
  id \<open>ref\<close> is marked used.\<close>

fun reissues :: "string \<Rightarrow> op \<Rightarrow> bool" where
  "reissues ref (OpGenerateTransferOTP userId toEmail amount otp referenceId now) =
     (referenceId = ref)"
| "reissues ref (OpGetBalance userId) = False"
| "reissues ref (OpAddMoney userId amount paymentMethod idempotencyKey transactionId now
      gateway now') = False"
| "reissues ref (OpTransfer userId toEmail amount otp referenceId idempotencyKey
      debitTransactionId creditTransactionId now) = False"

definition ref_spent :: "db \<Rightarrow> string \<Rightarrow> bool" where
  "ref_spent d ref = (\<forall>row \<in> set (otps d). reference_id row = ref \<longrightarrow> is_used row)"

text \<open>The fixture of \<^verbatim>\<open>tests/walletService.test.js\<close> for its transfer test: an OTP
  row written straight into the table for Bob (who holds 500.00), valid for five
  minutes.\<close>

definition otp_fixture_db :: db where
  "otp_fixture_db =
     demo_db\<lparr>otps :=
       [\<lparr> o_user_id = 2, otp_code = ''123456'', purpose = ''TRANSFER'',
           reference_id = ''ref9'', is_used = False, expires_at = 301000 \<rparr>]\<rparr>"

text \<open>Two \<^verbatim>\<open>transfer\<close> requests of Alice in flight at the same time on the strength of
  one OTP: A sends 100.00 to Bob under the key k1, B sends 200.00 to Carol under the key
  k2, both with the code 123456 and the reference ref1. Both ran their OTP lookup on
  \<open>otp_issued_db\<close> and got row 0; then A's atomic unit committed, which gives
  \<open>transferred_db\<close>. \<open>overlapped_db\<close> is the database after B's atomic unit has run
  on that, with the row id B had read.\<close>

definition overlapped_db :: db where
  "overlapped_db =
     (case transfer_unit transferred_db 1 ''c@x.com'' 20000 0 (Some ''k2'') ''t3'' ''t4'' 2100 of
        Inl e \<Rightarrow> transferred_db
      | Inr (result, d') \<Rightarrow> d')"

section \<open>Properties of the service\<close>

subsection \<open>What each write changes\<close>

lemma update_wallet_balance_fields:
  assumes "update_wallet_balance d b u = Inr d'"
  shows "users d' = users d" "transactions d' = transactions d"
    "daily_limits d' = daily_limits d" "otps d' = otps d"
  using assms by (auto simp: update_wallet_balance_def split: option.splits if_splits)

lemma update_wallet_balance_wallets:
  assumes "update_wallet_balance d b u = Inr d'"
  shows "wallets d' = (case wallets d u of None \<Rightarrow> wallets d
                        | Some w \<Rightarrow> (wallets d)(u \<mapsto> w\<lparr>w_balance := b\<rparr>))"
  using assms by (auto simp: update_wallet_balance_def split: option.splits if_splits)

lemma update_wallet_balance_nonneg:
  assumes "update_wallet_balance d b u = Inr d'" "wallets_nonneg d"
  shows "wallets_nonneg d'"
  using assms
  by (auto simp: update_wallet_balance_def wallets_nonneg_def split: option.splits if_splits)

lemma insert_transaction_fields:
  assumes "insert_transaction d row = Inr d'"
  shows "users d' = users d" "wallets d' = wallets d"
    "daily_limits d' = daily_limits d" "otps d' = otps d"
    "transactions d' = transactions d @ [row]"
  using assms by (auto simp: insert_transaction_def split: if_splits)

lemma insert_transaction_checks:
  assumes "insert_transaction d row = Inr d'"
  shows "transaction_id row \<notin> transaction_id ` set (transactions d)"
    "idempotency_key row = None \<or> idempotency_key row \<notin> idempotency_key ` set (transactions d)"
    "0 < t_amount row"
  using assms by (auto simp: insert_transaction_def split: if_splits)

lemma mark_otp_used_fields:
  "users (mark_otp_used d i) = users d" "wallets (mark_otp_used d i) = wallets d"
  "daily_limits (mark_otp_used d i) = daily_limits d"
  "transactions (mark_otp_used d i) = transactions d"
  by (simp_all add: mark_otp_used_def)

lemma updateDailyLimit_fields:
  "users (updateDailyLimit d u c a n) = users d"
  "wallets (updateDailyLimit d u c a n) = wallets d"
  "otps (updateDailyLimit d u c a n) = otps d"
  "transactions (updateDailyLimit d u c a n) = transactions d"
  by (simp_all add: updateDailyLimit_def Let_def)

lemma set_transaction_success_fields:
  "users (set_transaction_success d t b) = users d"
  "wallets (set_transaction_success d t b) = wallets d"
  "otps (set_transaction_success d t b) = otps d"
  "daily_limits (set_transaction_success d t b) = daily_limits d"
  by (simp_all add: set_transaction_success_def)

lemma set_transaction_failed_fields:
  "users (set_transaction_failed d t m) = users d"
  "wallets (set_transaction_failed d t m) = wallets d"
  "otps (set_transaction_failed d t m) = otps d"
  "daily_limits (set_transaction_failed d t m) = daily_limits d"
  by (simp_all add: set_transaction_failed_def)

subsection \<open>The atomic unit of transfer\<close>

lemma find_concat_wallet_rows:
  "find (\<lambda>w. fst w = u)
     (concat (map (\<lambda>v. case wallets d v of None \<Rightarrow> [] | Some w \<Rightarrow> [(v, w_balance w)]) xs)) =
   (if u \<in> set xs then map_option (\<lambda>w. (u, w_balance w)) (wallets d u) else None)"
  by (induction xs) (auto split: option.splits)

lemma find_select_wallets_for_update:
  "find (\<lambda>w. fst w = u) (select_wallets_for_update d userIds) =
   (if u \<in> set userIds then map_option (\<lambda>w. (u, w_balance w)) (wallets d u) else None)"
  unfolding select_wallets_for_update_def by (simp add: find_concat_wallet_rows)

text \<open>A unit that commits has resolved the recipient, found both wallets, seen a
  sufficient balance, and passed both wallet updates and both ledger inserts.\<close>

lemma transfer_unit_Inr:
  assumes "transfer_unit d userId toEmail amount otpId key debitId creditId now = Inr (r, d')"
  shows "\<exists>recipient rest sw rw d1 d2 d3 d4.
           find_active_users d toEmail = recipient # rest
         \<and> wallets d userId = Some sw
         \<and> wallets d (u_id recipient) = Some rw
         \<and> amount \<le> w_balance sw
         \<and> update_wallet_balance d (w_balance sw - amount) userId = Inr d1
         \<and> update_wallet_balance d1 (w_balance rw + amount) (u_id recipient) = Inr d2
         \<and> insert_transaction d2
              (debit_row debitId key userId amount (w_balance sw) (w_balance sw - amount)
                 (u_id recipient) creditId) = Inr d3
         \<and> insert_transaction d3
              (credit_row creditId (u_id recipient) amount (w_balance rw)
                 (w_balance rw + amount) userId debitId) = Inr d4
         \<and> d' = updateDailyLimit (mark_otp_used d4 otpId) userId TOTAL_TRANSFERRED amount now
         \<and> r = transfer_response debitId amount (w_balance sw - amount)"
  using assms unfolding transfer_unit_def
  by (auto simp: Let_def find_select_wallets_for_update
           split: list.splits option.splits sum.splits if_splits prod.splits)

lemma transfer_unit_InrE [consumes 1, case_names committed]:
  assumes "transfer_unit d userId toEmail amount otpId key debitId creditId now = Inr (r, d')"
  obtains recipient rest sw rw d1 d2 d3 d4 where
    "find_active_users d toEmail = recipient # rest"
    "wallets d userId = Some sw"
    "wallets d (u_id recipient) = Some rw"
    "amount \<le> w_balance sw"
    "update_wallet_balance d (w_balance sw - amount) userId = Inr d1"
    "update_wallet_balance d1 (w_balance rw + amount) (u_id recipient) = Inr d2"
    "insert_transaction d2
        (debit_row debitId key userId amount (w_balance sw) (w_balance sw - amount)
           (u_id recipient) creditId) = Inr d3"
    "insert_transaction d3
        (credit_row creditId (u_id recipient) amount (w_balance rw)
           (w_balance rw + amount) userId debitId) = Inr d4"
    "d' = updateDailyLimit (mark_otp_used d4 otpId) userId TOTAL_TRANSFERRED amount now"
    "r = transfer_response debitId amount (w_balance sw - amount)"
  using transfer_unit_Inr [OF assms] by (elim exE conjE) (rule that)

subsection \<open>Balances never go negative\<close>

lemma transfer_unit_nonneg:
  assumes "transfer_unit d userId toEmail amount otpId key debitId creditId now = Inr (r, d')"
    and "wallets_nonneg d"
  shows "wallets_nonneg d'"
  using assms(1)
proof (cases rule: transfer_unit_InrE)
  case (committed recipient rest sw rw d1 d2 d3 d4)
  have "wallets_nonneg d2"
    using update_wallet_balance_nonneg [OF committed(6)
            update_wallet_balance_nonneg [OF committed(5) assms(2)]] .
  moreover have "wallets d' = wallets d2"
    by (simp add: committed(9) updateDailyLimit_fields mark_otp_used_fields
          insert_transaction_fields [OF committed(8)]
          insert_transaction_fields [OF committed(7)])
  ultimately show ?thesis by (simp add: wallets_nonneg_def)
qed

lemma transfer_nonneg:
  assumes "wallets_nonneg d"
  shows "wallets_nonneg
           (snd (transfer d userId toEmail amount otp referenceId key debitId creditId now))"
  using assms transfer_unit_nonneg
  by (auto simp: transfer_def split: list.splits option.splits sum.splits)

lemma generateTransferOTP_wallets:
  "wallets (snd (generateTransferOTP cfg d userId toEmail amount otp referenceId now)) =
   wallets d"
  by (auto simp: generateTransferOTP_def Let_def split: sum.splits list.splits option.splits)

lemma generateTransferOTP_nonneg:
  "wallets_nonneg d \<Longrightarrow>
   wallets_nonneg (snd (generateTransferOTP cfg d userId toEmail amount otp referenceId now))"
  by (simp add: wallets_nonneg_def generateTransferOTP_wallets)

lemma addMoney_unit1_wallets:
  "wallets (snd (addMoney_unit1 cfg d userId amount pm key tid now)) = wallets d"
  by (auto simp: addMoney_unit1_def Let_def insert_transaction_fields
           split: sum.splits list.splits option.splits)

lemma addMoney_unit2_nonneg:
  assumes "wallets_nonneg d"
  shows "wallets_nonneg (snd (addMoney_unit2 d userId amount pm tid cb pr now))"
  using assms
  by (auto simp: addMoney_unit2_def Let_def wallets_nonneg_def updateDailyLimit_fields
        set_transaction_success_fields set_transaction_failed_fields
        update_wallet_balance_def
      split: sum.splits option.splits if_splits)

lemma addMoney_nonneg:
  assumes "wallets_nonneg d"
  shows "wallets_nonneg (snd (addMoney cfg d userId amount pm key tid now gw now'))"
proof -
  have w1: "wallets_nonneg (snd (addMoney_unit1 cfg d userId amount pm key tid now))"
    using assms by (simp add: wallets_nonneg_def addMoney_unit1_wallets)
  show ?thesis
    using w1 addMoney_unit2_nonneg
    by (auto simp: addMoney_def split: prod.splits sum.splits unit1_outcome.splits
          gateway_outcome.splits)
qed

lemma exec_nonneg: "wallets_nonneg d \<Longrightarrow> wallets_nonneg (exec cfg d x)"
  by (cases x) (simp_all add: transfer_nonneg addMoney_nonneg generateTransferOTP_nonneg)

lemma demo_db_nonneg: "wallets_nonneg demo_db"
  by (simp add: wallets_nonneg_def demo_db_def)

lemma run_nonneg: "wallets_nonneg d \<Longrightarrow> wallets_nonneg (run cfg d ops)"
  unfolding run_def by (induction ops arbitrary: d) (simp_all add: exec_nonneg)

text \<open>
  C2. Starting from a database in which no wallet is negative, the database left by any
  sequence of getBalance, addMoney, generateTransferOTP and transfer requests, whatever
  their arguments and whatever the gateway answers, has no negative wallet. The
  transfer's balance test covers the sender; the check constraint of the wallets table
  covers every other write. The two atomic units of addMoney keep the property each on
  its own, for any balance handed from the first to the second, so it also holds at the
  commit between them and when other requests are served in between.
\<close>

theorem balance_never_negative:
  "wallets_nonneg d \<Longrightarrow>
     wallets_nonneg (run cfg d ops)
   \<and> wallets_nonneg
         (snd (addMoney_unit1 cfg d userId amount paymentMethod idempotencyKey transactionId now))
   \<and> wallets_nonneg
         (snd (addMoney_unit2 d userId amount paymentMethod transactionId currentBalance
                 paymentResult now))"
  by (simp add: run_nonneg addMoney_unit2_nonneg)
     (simp add: wallets_nonneg_def addMoney_unit1_wallets)

theorem balance_never_negative_witness:
  "wallets_nonneg demo_db \<and>
   wallets_nonneg
     (run default_config demo_db
        [OpGenerateTransferOTP 1 ''b@x.com'' 10000 ''123456'' ''ref1'' 1000,
         OpTransfer 1 ''b@x.com'' 100000 ''123456'' ''ref1'' (Some ''k1'') ''t1'' ''t2'' 2000,
         OpAddMoney 2 20000 UPI None ''t3'' 3000
           (Resolved \<lparr>pr_success = True, pr_message = ''ok''\<rparr>) 4000,
         OpGetBalance 1])
   \<and> wallets_nonneg
         (snd (addMoney_unit2 demo_db 1 50000 UPI ''t1'' (- 200000) paid 2000))"
  using demo_db_nonneg
    balance_never_negative [OF demo_db_nonneg, where cfg = default_config and userId = 1
      and amount = 50000 and paymentMethod = UPI and transactionId = "''t1''"
      and currentBalance = "- 200000" and paymentResult = paid and now = 2000]
  by simp

subsection \<open>What a transfer that returns has done\<close>

lemma checkIdempotency_isDuplicate:
  "checkIdempotency d key = Some r \<Longrightarrow> isDuplicate r"
  by (auto simp: checkIdempotency_def cached_response_def
           split: option.splits if_splits list.splits)

lemma transfer_Inr_cases:
  assumes "transfer d userId toEmail amount otp referenceId key debitId creditId now = (Inr r, d')"
  shows "\<exists>otpId ids. select_otps d userId referenceId otp now = otpId # ids \<and>
           ((checkIdempotency d key = Some r \<and> d' = d) \<or>
            (checkIdempotency d key = None \<and>
             transfer_unit d userId toEmail amount otpId key debitId creditId now = Inr (r, d')))"
  using assms
  by (auto simp: transfer_def split: list.splits option.splits sum.splits)

lemma transfer_fresh_Inr:
  assumes "transfer d userId toEmail amount otp referenceId key debitId creditId now = (Inr r, d')"
    and "\<not> isDuplicate r"
  shows "\<exists>otpId ids. select_otps d userId referenceId otp now = otpId # ids \<and>
           checkIdempotency d key = None \<and>
           transfer_unit d userId toEmail amount otpId key debitId creditId now = Inr (r, d')"
  using transfer_Inr_cases [OF assms(1)] assms(2) checkIdempotency_isDuplicate by blast

lemma transfer_Inl_unchanged:
  "transfer d userId toEmail amount otp referenceId key debitId creditId now = (Inl e, d')
   \<Longrightarrow> d' = d"
  by (auto simp: transfer_def split: list.splits option.splits sum.splits)

subsection \<open>Transfers and the two balances\<close>

text \<open>Between two different users a transfer that ran (its answer is not a cached
  one) takes the amount from the sender's wallet and adds it to the recipient's.\<close>

lemma transfer_between_two_users:
  assumes t: "transfer d userId toEmail amount otp referenceId key debitId creditId now = (Inr r, d')"
    and fresh: "\<not> isDuplicate r"
    and rcp: "find_active_users d toEmail = recipient # rest"
    and ne: "u_id recipient \<noteq> userId"
    and sw: "wallets d userId = Some sw" and rw: "wallets d (u_id recipient) = Some rw"
  shows "map_option w_balance (wallets d' userId) = Some (w_balance sw - amount)"
    and "map_option w_balance (wallets d' (u_id recipient)) = Some (w_balance rw + amount)"
proof -
  from transfer_fresh_Inr [OF t fresh] obtain otpId where
    u: "transfer_unit d userId toEmail amount otpId key debitId creditId now = Inr (r, d')"
    by blast
  from u have
    "map_option w_balance (wallets d' userId) = Some (w_balance sw - amount) \<and>
     map_option w_balance (wallets d' (u_id recipient)) = Some (w_balance rw + amount)"
  proof (cases rule: transfer_unit_InrE)
    case (committed recipient' rest' sw' rw' d1 d2 d3 d4)
    have r': "recipient' = recipient" using committed(1) rcp by simp
    have s': "sw' = sw" using committed(2) sw by simp
    have w': "rw' = rw" using committed(3) rw r' by simp
    have w1: "wallets d1 = (wallets d)(userId \<mapsto> sw\<lparr>w_balance := w_balance sw - amount\<rparr>)"
      using update_wallet_balance_wallets [OF committed(5)] sw s' by simp
    have w2: "wallets d2 =
        (wallets d1)(u_id recipient \<mapsto> rw\<lparr>w_balance := w_balance rw + amount\<rparr>)"
      using update_wallet_balance_wallets [OF committed(6)] w1 rw ne r' w' by simp
    have "wallets d' = wallets d2"
      by (simp add: committed(9) updateDailyLimit_fields mark_otp_used_fields
            insert_transaction_fields [OF committed(8)]
            insert_transaction_fields [OF committed(7)])
    then show ?thesis using w1 w2 ne by simp
  qed
  then show "map_option w_balance (wallets d' userId) = Some (w_balance sw - amount)"
    and "map_option w_balance (wallets d' (u_id recipient)) = Some (w_balance rw + amount)"
    by simp_all
qed

text \<open>
  C1. A completed transfer is claimed to lower the sender's balance by the amount, to
  raise the recipient's by the amount and to keep their sum. \<open>transfer\<close> itself never
  compares the recipient with the sender (only \<open>generateTransferOTP\<close> does), and the OTP
  row names no recipient. With the OTP Alice obtained for a transfer to Bob she sends
  250.00 to her own address: the request returns success and reports a balance of
  750.00, the second wallet update overwrites the first, and her wallet goes from
  1000.00 to 1250.00. The service refuses the same recipient when the OTP is asked for.
\<close>

theorem transfer_to_self_raises_balance:
  "fst (generateTransferOTP default_config demo_db 1 ''a@x.com'' 25000 ''123456'' ''ref1'' 1000)
     = Inl CannotTransferToYourself \<and>
   map_option w_balance (wallets otp_issued_db 1) = Some 100000 \<and>
   fst (transfer otp_issued_db 1 ''a@x.com'' 25000 ''123456'' ''ref1'' (Some ''k1'')
          ''t1'' ''t2'' 2000)
     = Inr (transfer_response ''t1'' 25000 75000) \<and>
   map_option w_balance
     (wallets (snd (transfer otp_issued_db 1 ''a@x.com'' 25000 ''123456'' ''ref1''
                      (Some ''k1'') ''t1'' ''t2'' 2000)) 1)
     = Some 125000"
  by code_simp

subsection \<open>Replaying a request under a used idempotency key\<close>

text \<open>A request whose key is already in the ledger writes nothing, whatever it
  returns; when it gets as far as the idempotency lookup it returns the stored row.\<close>

lemma checkIdempotency_used_key:
  assumes "t \<in> set (transactions d)" "idempotency_key t = Some k" "k \<noteq> []"
  shows "\<exists>t'. t' \<in> set (transactions d) \<and> idempotency_key t' = Some k \<and>
              checkIdempotency d (Some k) = Some (cached_response t')"
proof -
  have "filter (\<lambda>t. idempotency_key t = Some k) (transactions d) \<noteq> []"
    using assms(1,2) by (auto simp: filter_empty_conv)
  then obtain t' ts where f: "filter (\<lambda>t. idempotency_key t = Some k) (transactions d) = t' # ts"
    by (cases "filter (\<lambda>t. idempotency_key t = Some k) (transactions d)") auto
  have "t' \<in> set (filter (\<lambda>t. idempotency_key t = Some k) (transactions d))"
    by (simp add: f)
  then have "t' \<in> set (transactions d)" "idempotency_key t' = Some k" by auto
  then show ?thesis using f assms(3) by (auto simp: checkIdempotency_def)
qed

lemma addMoney_replay_unchanged:
  assumes "t \<in> set (transactions d)" "idempotency_key t = Some k" "k \<noteq> []"
  shows "snd (addMoney cfg d userId amount pm (Some k) tid now gw now') = d"
  using checkIdempotency_used_key [OF assms]
  by (auto simp: addMoney_def addMoney_unit1_def split: sum.splits)

lemma addMoney_replay_cached:
  assumes "t \<in> set (transactions d)" "idempotency_key t = Some k" "k \<noteq> []"
    and "validateAmount cfg amount = Inr ()"
    and "checkDailyAddMoneyLimit cfg d userId amount now = Inr ()"
  shows "\<exists>t'. t' \<in> set (transactions d) \<and> idempotency_key t' = Some k \<and>
           addMoney cfg d userId amount pm (Some k) tid now gw now' = (Inr (cached_response t'), d)"
  using checkIdempotency_used_key [OF assms(1-3)] assms(4,5)
  by (auto simp: addMoney_def addMoney_unit1_def)

lemma transfer_replay_unchanged:
  assumes "t \<in> set (transactions d)" "idempotency_key t = Some k" "k \<noteq> []"
  shows "snd (transfer d userId toEmail amount otp referenceId (Some k) debitId creditId now) = d"
  using checkIdempotency_used_key [OF assms]
  by (auto simp: transfer_def split: list.splits)

lemma transfer_replay_cached:
  assumes "t \<in> set (transactions d)" "idempotency_key t = Some k" "k \<noteq> []"
    and "select_otps d userId referenceId otp now \<noteq> []"
  shows "\<exists>t'. t' \<in> set (transactions d) \<and> idempotency_key t' = Some k \<and>
           transfer d userId toEmail amount otp referenceId (Some k) debitId creditId now
             = (Inr (cached_response t'), d)"
  using checkIdempotency_used_key [OF assms(1-3)] assms(4)
  by (auto simp: transfer_def split: list.splits)

text \<open>
  C3. A replay under a used idempotency key is claimed to return the entry of the
  original request, however often it is repeated. Both operations look the key up
  only after another test, and the original request changes what that test sees.
  \<open>transfer\<close> looks for an unused OTP first: the transfer that committed under key k1
  marked its OTP used, so the same request sent again throws the OTP error.
  \<open>addMoney\<close> checks the daily limit first: after 200000.00 was added twice, the
  second request sent again fails the limit (400000 + 200000 > 500000). In both cases
  no ledger row is added.
\<close>

theorem replay_rejected_before_key_lookup:
  "map (\<lambda>t. (transaction_id t, idempotency_key t, t_status t)) (transactions transferred_db)
     = [(''t1'', Some ''k1'', SUCCESS), (''t2'', None, SUCCESS)] \<and>
   fst (transfer transferred_db 1 ''b@x.com'' 10000 ''123456'' ''ref1'' (Some ''k1'')
          ''t3'' ''t4'' 3000)
     = Inl InvalidOrExpiredOTP \<and>
   map (\<lambda>t. (transaction_id t, idempotency_key t, t_status t)) (transactions added_twice_db)
     = [(''t1'', Some ''k1'', SUCCESS), (''t2'', Some ''k2'', SUCCESS)] \<and>
   fst (addMoney default_config added_twice_db 1 20000000 UPI (Some ''k2'') ''t3'' 5000
          (Resolved paid) 6000)
     = Inl DailyAddMoneyLimitExceeded"
  by code_simp

subsection \<open>Where OTP rows come from\<close>

lemma same_otp_refl: "same_otp r r"
  by (simp add: same_otp_def)

lemma issues_same_otp: "issues cfg x r0 \<Longrightarrow> same_otp r0 r \<Longrightarrow> issues cfg x r"
  by (cases x) (auto simp: same_otp_def)

lemma same_otp_trans: "same_otp a b \<Longrightarrow> same_otp b c \<Longrightarrow> same_otp a c"
  by (auto simp: same_otp_def)

lemma mark_otp_used_rows:
  assumes "r \<in> set (otps (mark_otp_used d i))"
  shows "\<exists>r0 \<in> set (otps d). same_otp r0 r"
proof (cases "i < length (otps d)")
  case True
  then have "r \<in> insert ((otps d ! i)\<lparr>is_used := True\<rparr>) (set (otps d))"
    using assms set_update_subset_insert by (fastforce simp: mark_otp_used_def)
  then show ?thesis
  proof
    assume "r = (otps d ! i)\<lparr>is_used := True\<rparr>"
    then have "same_otp (otps d ! i) r" by (simp add: same_otp_def)
    then show ?thesis using True nth_mem by blast
  next
    assume "r \<in> set (otps d)"
    then show ?thesis using same_otp_refl by blast
  qed
next
  case False
  then show ?thesis using assms same_otp_refl by (auto simp: mark_otp_used_def)
qed

lemma transfer_unit_otps:
  assumes "transfer_unit d userId toEmail amount otpId key debitId creditId now = Inr (r, d')"
  shows "otps d' = otps (mark_otp_used d otpId)"
  using assms
proof (cases rule: transfer_unit_InrE)
  case (committed recipient rest sw rw d1 d2 d3 d4)
  have "otps d4 = otps d"
    by (simp add: insert_transaction_fields [OF committed(8)]
          insert_transaction_fields [OF committed(7)]
          update_wallet_balance_fields [OF committed(6)]
          update_wallet_balance_fields [OF committed(5)])
  then show ?thesis
    by (simp add: committed(9) updateDailyLimit_fields mark_otp_used_def)
qed

lemma transfer_otps_rows:
  assumes "r \<in> set (otps (snd (transfer d userId toEmail amount otp referenceId key debitId creditId now)))"
  shows "\<exists>r0 \<in> set (otps d). same_otp r0 r"
proof (cases "transfer d userId toEmail amount otp referenceId key debitId creditId now")
  case (Pair res d')
  show ?thesis
  proof (cases res)
    case (Inl e)
    then have "d' = d" using Pair transfer_Inl_unchanged by blast
    then show ?thesis using assms Pair same_otp_refl by auto
  next
    case (Inr resp)
    from transfer_Inr_cases [OF Pair [unfolded Inr]] obtain otpId where
      "d' = d \<or> transfer_unit d userId toEmail amount otpId key debitId creditId now = Inr (resp, d')"
      by blast
    then show ?thesis
    proof
      assume "d' = d"
      then show ?thesis using assms Pair same_otp_refl by auto
    next
      assume "transfer_unit d userId toEmail amount otpId key debitId creditId now = Inr (resp, d')"
      then have "otps d' = otps (mark_otp_used d otpId)" by (rule transfer_unit_otps)
      then show ?thesis using assms Pair mark_otp_used_rows by auto
    qed
  qed
qed

lemma addMoney_otps:
  "otps (snd (addMoney cfg d userId amount pm key tid now gw now')) = otps d"
  by (auto simp: addMoney_def addMoney_unit1_def addMoney_unit2_def Let_def
        insert_transaction_fields update_wallet_balance_fields updateDailyLimit_fields
        set_transaction_success_fields set_transaction_failed_fields
      split: sum.splits option.splits unit1_outcome.splits gateway_outcome.splits prod.splits)


lemma generateTransferOTP_otps_rows:
  assumes "r \<in> set (otps (snd (generateTransferOTP cfg d userId toEmail amount otp referenceId now)))"
  shows "r \<in> set (otps d) \<or>
         issues cfg (OpGenerateTransferOTP userId toEmail amount otp referenceId now) r"
  using assms
  by (auto simp: generateTransferOTP_def Let_def
           split: sum.splits list.splits option.splits if_splits)

lemma exec_otps_rows:
  assumes "r \<in> set (otps (exec cfg d x))"
  shows "(\<exists>r0 \<in> set (otps d). same_otp r0 r) \<or> issues cfg x r"
proof (cases x)
  case (OpGetBalance u)
  then show ?thesis using assms same_otp_refl by auto
next
  case (OpAddMoney u a pm key tid now gw now')
  then show ?thesis using assms same_otp_refl by (auto simp: addMoney_otps)
next
  case (OpGenerateTransferOTP u e a otp ref now)
  then show ?thesis
    using assms generateTransferOTP_otps_rows [of r cfg d u e a otp ref now] same_otp_refl
    by auto
next
  case (OpTransfer u e a otp ref key did cid now)
  then show ?thesis using assms transfer_otps_rows by auto
qed

lemma run_otps_rows:
  "r \<in> set (otps (run cfg d ops)) \<Longrightarrow>
   (\<exists>r0 \<in> set (otps d). same_otp r0 r) \<or> (\<exists>x \<in> set ops. issues cfg x r)"
proof (induction ops arbitrary: d)
  case Nil
  then show ?case using same_otp_refl by (auto simp: run_def)
next
  case (Cons x ops)
  from Cons.prems have "r \<in> set (otps (run cfg (exec cfg d x) ops))"
    by (simp add: run_def)
  from Cons.IH [OF this] show ?case
  proof
    assume "\<exists>r0 \<in> set (otps (exec cfg d x)). same_otp r0 r"
    then obtain r0 where r0: "r0 \<in> set (otps (exec cfg d x))" "same_otp r0 r" by blast
    from exec_otps_rows [OF r0(1)] show ?thesis
    proof
      assume "\<exists>r00 \<in> set (otps d). same_otp r00 r0"
      then show ?thesis using r0(2) same_otp_trans by blast
    next
      assume "issues cfg x r0"
      then have "issues cfg x r" using r0(2) issues_same_otp by blast
      then show ?thesis by auto
    qed
  next
    assume "\<exists>y \<in> set ops. issues cfg y r"
    then show ?thesis by auto
  qed
qed

lemma select_otps_row:
  assumes "select_otps d userId referenceId otp now = i # ids"
  shows "i < length (otps d) \<and> otp_matches userId referenceId otp now (otps d ! i)"
proof -
  have "i \<in> set (select_otps d userId referenceId otp now)" by (simp add: assms)
  then show ?thesis by (auto simp: select_otps_def)
qed

lemma issues_generate:
  assumes "issues cfg x r"
  shows "\<exists>toEmail amount now.
           x = OpGenerateTransferOTP (o_user_id r) toEmail amount (otp_code r) (reference_id r) now
           \<and> expires_at r = now + OTP_VALIDITY_MINUTES cfg * 60 * 1000"
  using assms by (cases x) auto

text \<open>
  C4, as the code has it. The OTP table has no column for an amount or a recipient, and
  the lookup of \<open>transfer\<close> compares the user, the reference and the code only. So a
  transfer returns a result only if an unused, unexpired OTP row with this code exists
  for (sender, referenceId); starting from an empty OTP table, that row was issued by
  an earlier \<open>generateTransferOTP\<close> request of the sender with this reference and code,
  less than the validity window ago, for whatever recipient and amount that request
  named.
\<close>

theorem transfer_needs_issued_otp:
  assumes "otps d0 = []"
    and "transfer (run cfg d0 ops) userId toEmail amount otp referenceId key debitId creditId now
           = (Inr r, d')"
  shows "(\<exists>i. i < length (otps (run cfg d0 ops)) \<and>
              otp_matches userId referenceId otp now (otps (run cfg d0 ops) ! i)) \<and>
         (\<exists>toEmail' amount' now'.
              OpGenerateTransferOTP userId toEmail' amount' otp referenceId now' \<in> set ops \<and>
              now < now' + OTP_VALIDITY_MINUTES cfg * 60 * 1000)"
proof -
  from transfer_Inr_cases [OF assms(2)] obtain i ids where
    "select_otps (run cfg d0 ops) userId referenceId otp now = i # ids" by blast
  from select_otps_row [OF this] have
    i: "i < length (otps (run cfg d0 ops))" and
    m: "otp_matches userId referenceId otp now (otps (run cfg d0 ops) ! i)" by simp_all
  have "otps (run cfg d0 ops) ! i \<in> set (otps (run cfg d0 ops))" using i by simp
  from run_otps_rows [OF this] assms(1) obtain x where
    x: "x \<in> set ops" "issues cfg x (otps (run cfg d0 ops) ! i)" by auto
  from issues_generate [OF x(2)] obtain e a n where
    xe: "x = OpGenerateTransferOTP (o_user_id (otps (run cfg d0 ops) ! i)) e a
               (otp_code (otps (run cfg d0 ops) ! i))
               (reference_id (otps (run cfg d0 ops) ! i)) n" and
    ex: "expires_at (otps (run cfg d0 ops) ! i) = n + OTP_VALIDITY_MINUTES cfg * 60 * 1000"
    by blast
  have "OpGenerateTransferOTP userId e a otp referenceId n \<in> set ops"
    using x(1) xe m by (simp add: otp_matches_def)
  moreover have "now < n + OTP_VALIDITY_MINUTES cfg * 60 * 1000"
    using m ex by (simp add: otp_matches_def)
  ultimately have
    "\<exists>toEmail' amount' now'.
        OpGenerateTransferOTP userId toEmail' amount' otp referenceId now' \<in> set ops \<and>
        now < now' + OTP_VALIDITY_MINUTES cfg * 60 * 1000"
    by blast
  with i m show ?thesis by blast
qed

text \<open>
  C4, as stated, fails: with the OTP issued for 100.00 to Bob, Alice transfers 250.00
  to Carol. The transfer commits; Bob's wallet is untouched and Carol's receives the
  250.00.
\<close>

theorem otp_not_bound_to_amount_or_recipient:
  "fst (generateTransferOTP default_config demo_db 1 ''b@x.com'' 10000 ''123456'' ''ref1'' 1000)
     = Inr \<lparr> g_referenceId = ''ref1'', g_recipient_name = ''Bob'',
             g_recipient_email = ''b@x.com'' \<rparr> \<and>
   fst (transfer otp_issued_db 1 ''c@x.com'' 25000 ''123456'' ''ref1'' (Some ''k1'')
          ''t1'' ''t2'' 2000)
     = Inr (transfer_response ''t1'' 25000 75000) \<and>
   map (\<lambda>u. map_option w_balance
              (wallets (snd (transfer otp_issued_db 1 ''c@x.com'' 25000 ''123456'' ''ref1''
                               (Some ''k1'') ''t1'' ''t2'' 2000)) u)) [1, 2, 3]
     = [Some 75000, Some 50000, Some 25000]"
  by code_simp

theorem transfer_needs_issued_otp_witness:
  "otps demo_db = [] \<and>
   fst (transfer otp_issued_db 1 ''c@x.com'' 25000 ''123456'' ''ref1'' (Some ''k1'')
          ''t1'' ''t2'' 2000) = Inr (transfer_response ''t1'' 25000 75000) \<and>
   (\<exists>toEmail' amount' now'.
       OpGenerateTransferOTP 1 toEmail' amount' ''123456'' ''ref1'' now'
         \<in> set [OpGenerateTransferOTP 1 ''b@x.com'' 10000 ''123456'' ''ref1'' 1000] \<and>
       2000 < now' + OTP_VALIDITY_MINUTES default_config * 60 * 1000)"
proof -
  have e: "otps demo_db = []" by (simp add: demo_db_def)
  have f: "fst (transfer otp_issued_db 1 ''c@x.com'' 25000 ''123456'' ''ref1'' (Some ''k1'')
          ''t1'' ''t2'' 2000) = Inr (transfer_response ''t1'' 25000 75000)"
    by code_simp
  have t: "transfer (run default_config demo_db
                 [OpGenerateTransferOTP 1 ''b@x.com'' 10000 ''123456'' ''ref1'' 1000])
             1 ''c@x.com'' 25000 ''123456'' ''ref1'' (Some ''k1'') ''t1'' ''t2'' 2000
           = (Inr (transfer_response ''t1'' 25000 75000),
              snd (transfer otp_issued_db 1 ''c@x.com'' 25000 ''123456'' ''ref1'' (Some ''k1'')
                     ''t1'' ''t2'' 2000))"
    using f by (simp add: otp_issued_db_def prod_eq_iff)
  show ?thesis using e f transfer_needs_issued_otp [OF e t] by simp
qed

subsection \<open>The two rows of a transfer\<close>

lemma transfers_paired_append:
  "transfers_paired xs \<Longrightarrow> transfers_paired ys \<Longrightarrow> transfers_paired (xs @ ys)"
  by (induction xs rule: transfers_paired.induct) (auto split: list.splits if_splits)

lemma transfers_paired_map:
  assumes "\<And>t. t_type (f t) = t_type t" "\<And>a b. is_pair (f a) (f b) = is_pair a b"
  shows "transfers_paired (map f xs) = transfers_paired xs"
  by (induction xs rule: transfers_paired.induct) (auto simp: assms split: list.splits)

lemma debit_position:
  "transfers_paired L \<Longrightarrow> i < length L \<Longrightarrow> t_type (L ! i) = TRANSFER_DEBIT \<Longrightarrow>
   Suc i < length L \<and> is_pair (L ! i) (L ! Suc i)"
proof (induction L arbitrary: i rule: transfers_paired.induct)
  case 1
  then show ?case by simp
next
  case (2 t ts)
  show ?case
  proof (cases "t_type t = TRANSFER_DEBIT")
    case True
    with "2.prems"(1) obtain c rest where ts: "ts = c # rest" and p: "is_pair t c"
      and r: "transfers_paired rest"
      by (auto split: list.splits)
    have cty: "t_type c = TRANSFER_CREDIT" using p by (simp add: is_pair_def)
    consider "i = 0" | "i = Suc 0" | k where "i = Suc (Suc k)"
      by (metis not0_implies_Suc)
    then show ?thesis
    proof cases
      case 1
      then show ?thesis using ts p by simp
    next
      case 2
      then show ?thesis using ts cty "2.prems"(3) by simp
    next
      case 3
      have "k < length rest" "t_type (rest ! k) = TRANSFER_DEBIT"
        using "2.prems"(2,3) ts 3 by simp_all
      from "2.IH"(1) [OF True ts r this] show ?thesis using ts 3 by simp
    qed
  next
    case False
    with "2.prems"(1) have r: "transfers_paired ts" by simp
    from False "2.prems"(3) obtain k where k: "i = Suc k" by (cases i) auto
    have "k < length ts" "t_type (ts ! k) = TRANSFER_DEBIT"
      using "2.prems"(2,3) k by simp_all
    from "2.IH"(2) [OF False r this] show ?thesis using k by simp
  qed
qed

lemma credit_position:
  "transfers_paired L \<Longrightarrow> j < length L \<Longrightarrow> t_type (L ! j) = TRANSFER_CREDIT \<Longrightarrow>
   \<exists>i. j = Suc i \<and> t_type (L ! i) = TRANSFER_DEBIT \<and> is_pair (L ! i) (L ! j)"
proof (induction L arbitrary: j rule: transfers_paired.induct)
  case 1
  then show ?case by simp
next
  case (2 t ts)
  show ?case
  proof (cases "t_type t = TRANSFER_DEBIT")
    case True
    with "2.prems"(1) obtain c rest where ts: "ts = c # rest" and p: "is_pair t c"
      and r: "transfers_paired rest"
      by (auto split: list.splits)
    consider "j = 0" | "j = Suc 0" | k where "j = Suc (Suc k)"
      by (metis not0_implies_Suc)
    then show ?thesis
    proof cases
      case 1
      then show ?thesis using True "2.prems"(3) by simp
    next
      case 2
      then show ?thesis using ts p True by simp
    next
      case 3
      have "k < length rest" "t_type (rest ! k) = TRANSFER_CREDIT"
        using "2.prems"(2,3) ts 3 by simp_all
      from "2.IH"(1) [OF True ts r this] obtain i where
        "k = Suc i" "t_type (rest ! i) = TRANSFER_DEBIT" "is_pair (rest ! i) (rest ! k)" by blast
      then have "j = Suc (Suc (Suc i)) \<and> t_type ((t # ts) ! Suc (Suc i)) = TRANSFER_DEBIT
                 \<and> is_pair ((t # ts) ! Suc (Suc i)) ((t # ts) ! j)"
        using ts 3 by simp
      then show ?thesis by blast
    qed
  next
    case False
    with "2.prems"(1) have r: "transfers_paired ts" and nc: "t_type t \<noteq> TRANSFER_CREDIT"
      by simp_all
    from nc "2.prems"(3) obtain k where k: "j = Suc k" by (cases j) auto
    have "k < length ts" "t_type (ts ! k) = TRANSFER_CREDIT"
      using "2.prems"(2,3) k by simp_all
    from "2.IH"(2) [OF False r this] obtain i where
      "k = Suc i" "t_type (ts ! i) = TRANSFER_DEBIT" "is_pair (ts ! i) (ts ! k)" by blast
    then have "j = Suc (Suc i) \<and> t_type ((t # ts) ! Suc i) = TRANSFER_DEBIT
               \<and> is_pair ((t # ts) ! Suc i) ((t # ts) ! j)"
      using k by simp
    then show ?thesis by blast
  qed
qed

lemma naming_credit_position:
  assumes d: "distinct (map transaction_id L)" and p: "transfers_paired L"
    and i: "i < length L" and j: "j < length L" and n: "names_debit (L ! j) (L ! i)"
  shows "j = Suc i"
proof -
  from n have ty: "t_type (L ! j) = TRANSFER_CREDIT"
    and c: "counterparty_transaction_id (L ! j) = Some (transaction_id (L ! i))"
    by (simp_all add: names_debit_def)
  from credit_position [OF p j ty] obtain k where
    k: "j = Suc k" "is_pair (L ! k) (L ! j)" by blast
  have kl: "k < length L" using k(1) j by simp
  have "transaction_id (L ! k) = transaction_id (L ! i)"
    using k(2) c by (simp add: is_pair_def)
  then have "map transaction_id L ! k = map transaction_id L ! i" using kl i by simp
  moreover have "k < length (map transaction_id L)" "i < length (map transaction_id L)"
    using kl i by simp_all
  ultimately have "k = i" using d nth_eq_iff_index_eq by blast
  then show ?thesis using k(1) by simp
qed

lemma is_pair_debit_credit:
  "is_pair (debit_row debitId key userId amount sb nsb recipientId creditId)
           (credit_row creditId recipientId amount rb nrb userId debitId)"
  by (simp add: is_pair_def debit_row_def credit_row_def)

lemma set_transaction_success_ledger_ok:
  "ledger_ok d \<Longrightarrow> ledger_ok (set_transaction_success d tid b)"
proof -
  let ?f = "\<lambda>t. if transaction_id t = tid
                 then t\<lparr>t_status := SUCCESS, balance_after := b\<rparr> else t"
  have ids: "map (transaction_id \<circ> ?f) (transactions d) = map transaction_id (transactions d)"
    by simp
  have "transfers_paired (map ?f (transactions d)) = transfers_paired (transactions d)"
    by (rule transfers_paired_map) (auto simp: is_pair_def)
  then show "ledger_ok d \<Longrightarrow> ledger_ok (set_transaction_success d tid b)"
    by (simp add: ledger_ok_def set_transaction_success_def ids)
qed

lemma set_transaction_failed_ledger_ok:
  "ledger_ok d \<Longrightarrow> ledger_ok (set_transaction_failed d tid m)"
proof -
  let ?f = "\<lambda>t. if transaction_id t = tid
                 then t\<lparr>t_status := FAILED, failure_reason := Some m\<rparr> else t"
  have ids: "map (transaction_id \<circ> ?f) (transactions d) = map transaction_id (transactions d)"
    by simp
  have "transfers_paired (map ?f (transactions d)) = transfers_paired (transactions d)"
    by (rule transfers_paired_map) (auto simp: is_pair_def)
  then show "ledger_ok d \<Longrightarrow> ledger_ok (set_transaction_failed d tid m)"
    by (simp add: ledger_ok_def set_transaction_failed_def ids)
qed

lemma insert_pending_ledger_ok:
  assumes "insert_transaction d (pending_row tid key u a cb pm) = Inr d'" "ledger_ok d"
  shows "ledger_ok d'"
proof -
  have "transfers_paired [pending_row tid key u a cb pm]" by (simp add: pending_row_def)
  then have "transfers_paired (transactions d @ [pending_row tid key u a cb pm])"
    using assms(2) transfers_paired_append by (simp add: ledger_ok_def)
  then show ?thesis
    using assms insert_transaction_checks(1) [OF assms(1)]
    by (simp add: ledger_ok_def insert_transaction_fields [OF assms(1)])
qed

lemma addMoney_unit1_ledger_ok:
  "ledger_ok d \<Longrightarrow> ledger_ok (snd (addMoney_unit1 cfg d userId amount pm key tid now))"
  by (auto simp: addMoney_unit1_def Let_def insert_pending_ledger_ok
           split: sum.splits option.splits)

lemma ledger_ok_cong:
  "transactions d' = transactions d \<Longrightarrow> ledger_ok d' = ledger_ok d"
  by (simp add: ledger_ok_def)

lemma addMoney_unit2_ledger_ok:
  assumes "ledger_ok d"
  shows "ledger_ok (snd (addMoney_unit2 d userId amount pm tid cb pr now))"
proof (cases "pr_success pr")
  case False
  then show ?thesis using assms by (simp add: addMoney_unit2_def set_transaction_failed_ledger_ok)
next
  case True
  show ?thesis
  proof (cases "update_wallet_balance d (cb + amount) userId")
    case (Inl e)
    then show ?thesis using True assms by (simp add: addMoney_unit2_def)
  next
    case (Inr d1)
    have "ledger_ok d1" using assms ledger_ok_cong update_wallet_balance_fields(2) [OF Inr] by blast
    then have "ledger_ok (updateDailyLimit (set_transaction_success d1 tid (cb + amount)) userId
                 TOTAL_ADDED amount now)"
      using set_transaction_success_ledger_ok ledger_ok_cong updateDailyLimit_fields(4) by blast
    then show ?thesis using True Inr by (simp add: addMoney_unit2_def Let_def)
  qed
qed

lemma addMoney_ledger_ok:
  assumes "ledger_ok d"
  shows "ledger_ok (snd (addMoney cfg d userId amount pm key tid now gw now'))"
  using addMoney_unit1_ledger_ok [OF assms, of cfg userId amount pm key tid now]
        addMoney_unit2_ledger_ok
  by (auto simp: addMoney_def split: prod.splits sum.splits unit1_outcome.splits
        gateway_outcome.splits)

lemma transfer_unit_transactions:
  assumes "transfer_unit d userId toEmail amount otpId key debitId creditId now = Inr (r, d')"
  shows "\<exists>recipientId sb rb.
           transactions d' = transactions d @
             [debit_row debitId key userId amount sb (sb - amount) recipientId creditId,
              credit_row creditId recipientId amount rb (rb + amount) userId debitId]
         \<and> debitId \<notin> transaction_id ` set (transactions d)
         \<and> creditId \<notin> transaction_id ` set (transactions d)
         \<and> creditId \<noteq> debitId"
  using assms
proof (cases rule: transfer_unit_InrE)
  case (committed recipient rest sw rw d1 d2 d3 d4)
  have t2: "transactions d2 = transactions d"
    by (simp add: update_wallet_balance_fields [OF committed(6)]
          update_wallet_balance_fields [OF committed(5)])
  have t3: "transactions d3 = transactions d @
      [debit_row debitId key userId amount (w_balance sw) (w_balance sw - amount)
         (u_id recipient) creditId]"
    by (simp add: insert_transaction_fields [OF committed(7)] t2)
  have t4: "transactions d4 = transactions d @
      [debit_row debitId key userId amount (w_balance sw) (w_balance sw - amount)
         (u_id recipient) creditId,
       credit_row creditId (u_id recipient) amount (w_balance rw) (w_balance rw + amount)
         userId debitId]"
    by (simp add: insert_transaction_fields [OF committed(8)] t3)
  have "transactions d' = transactions d4"
    by (simp add: committed(9) updateDailyLimit_fields mark_otp_used_fields)
  moreover have "debitId \<notin> transaction_id ` set (transactions d)"
    using insert_transaction_checks(1) [OF committed(7)] t2 by (simp add: debit_row_def)
  moreover have "creditId \<notin> transaction_id ` set (transactions d) \<and> creditId \<noteq> debitId"
    using insert_transaction_checks(1) [OF committed(8)] t3
    by (auto simp: debit_row_def credit_row_def)
  ultimately show ?thesis using t4 by auto
qed

lemma transfer_unit_ledger_ok:
  assumes "transfer_unit d userId toEmail amount otpId key debitId creditId now = Inr (r, d')"
    and "ledger_ok d"
  shows "ledger_ok d'"
proof -
  from transfer_unit_transactions [OF assms(1)] obtain recipientId sb rb where
    t: "transactions d' = transactions d @
             [debit_row debitId key userId amount sb (sb - amount) recipientId creditId,
              credit_row creditId recipientId amount rb (rb + amount) userId debitId]" and
    n: "debitId \<notin> transaction_id ` set (transactions d)"
       "creditId \<notin> transaction_id ` set (transactions d)" "creditId \<noteq> debitId"
    by blast
  have "transfers_paired
          [debit_row debitId key userId amount sb (sb - amount) recipientId creditId,
           credit_row creditId recipientId amount rb (rb + amount) userId debitId]"
    using is_pair_debit_credit by (simp add: debit_row_def)
  then have "transfers_paired (transactions d')"
    using assms(2) transfers_paired_append t by (simp add: ledger_ok_def)
  moreover have "distinct (map transaction_id (transactions d'))"
    using assms(2) n by (auto simp: t ledger_ok_def debit_row_def credit_row_def)
  ultimately show ?thesis by (simp add: ledger_ok_def)
qed

lemma transfer_ledger_ok:
  assumes "ledger_ok d"
  shows "ledger_ok (snd (transfer d userId toEmail amount otp referenceId key debitId creditId now))"
  using assms transfer_unit_ledger_ok
  by (auto simp: transfer_def split: list.splits option.splits sum.splits)

lemma generateTransferOTP_transactions:
  "transactions (snd (generateTransferOTP cfg d userId toEmail amount otp referenceId now)) =
   transactions d"
  by (auto simp: generateTransferOTP_def Let_def split: sum.splits list.splits option.splits)

lemma exec_ledger_ok: "ledger_ok d \<Longrightarrow> ledger_ok (exec cfg d x)"
  by (cases x)
     (simp_all add: transfer_ledger_ok addMoney_ledger_ok
        ledger_ok_cong [OF generateTransferOTP_transactions])

lemma run_ledger_ok: "ledger_ok d \<Longrightarrow> ledger_ok (run cfg d ops)"
  unfolding run_def by (induction ops arbitrary: d) (simp_all add: exec_ledger_ok)

text \<open>
  C5. Start from a ledger with distinct transaction ids that is made of paired transfer
  blocks and of rows of other types (the empty ledger is one). After any sequence of
  requests, every \<open>TRANSFER_DEBIT\<close> row \<open>dr\<close> of the ledger has its credit side in the
  row inserted right after it, by the same atomic unit: a \<open>TRANSFER_CREDIT\<close> of the
  same amount with owner and counterparty swapped, each of the two rows naming the other
  in \<^verbatim>\<open>counterparty_transaction_id\<close>. And that row is the only
  \<open>TRANSFER_CREDIT\<close> of the whole ledger whose \<^verbatim>\<open>counterparty_transaction_id\<close> is
  the id of \<open>dr\<close>, whatever amount and owner another row may carry: no other position
  of the ledger holds one, so exactly one credit row belongs to the debit row.
\<close>

theorem every_debit_has_its_credit:
  assumes "ledger_ok d"
    and "dr \<in> set (transactions (run cfg d ops))"
    and "t_type dr = TRANSFER_DEBIT"
  shows "(\<exists>i. Suc i < length (transactions (run cfg d ops)) \<and>
              transactions (run cfg d ops) ! i = dr \<and>
              is_pair dr (transactions (run cfg d ops) ! Suc i) \<and>
              (\<forall>j < length (transactions (run cfg d ops)).
                  names_debit (transactions (run cfg d ops) ! j) dr \<longrightarrow> j = Suc i)) \<and>
         (\<exists>!cr. cr \<in> set (transactions (run cfg d ops)) \<and> names_debit cr dr)"
proof -
  let ?L = "transactions (run cfg d ops)"
  have ok: "distinct (map transaction_id ?L)" "transfers_paired ?L"
    using run_ledger_ok [OF assms(1), of cfg ops] by (simp_all add: ledger_ok_def)
  from assms(2) obtain i where i: "i < length ?L" "?L ! i = dr"
    by (auto simp: in_set_conv_nth)
  have ty: "t_type (?L ! i) = TRANSFER_DEBIT" using i(2) assms(3) by simp
  from debit_position [OF ok(2) i(1) ty] have
    s: "Suc i < length ?L" and p: "is_pair dr (?L ! Suc i)" using i(2) by simp_all
  have only: "j = Suc i" if "j < length ?L" "names_debit (?L ! j) dr" for j
    using naming_credit_position [OF ok i(1) that(1)] that(2) i(2) by simp
  have n: "names_debit (?L ! Suc i) dr" using p by (simp add: is_pair_def names_debit_def)
  have mem: "?L ! Suc i \<in> set ?L" using s by simp
  have "\<exists>!cr. cr \<in> set ?L \<and> names_debit cr dr"
  proof (rule ex1I [of _ "?L ! Suc i"])
    show "?L ! Suc i \<in> set ?L \<and> names_debit (?L ! Suc i) dr" using mem n by simp
  next
    fix cr
    assume c: "cr \<in> set ?L \<and> names_debit cr dr"
    then obtain j where j: "j < length ?L" "?L ! j = cr" by (auto simp: in_set_conv_nth)
    then have "j = Suc i" using only c by simp
    then show "cr = ?L ! Suc i" using j(2) by simp
  qed
  moreover have "Suc i < length ?L \<and> ?L ! i = dr \<and> is_pair dr (?L ! Suc i) \<and>
                 (\<forall>j < length ?L. names_debit (?L ! j) dr \<longrightarrow> j = Suc i)"
    using s i(2) p only by blast
  ultimately show ?thesis by blast
qed

theorem every_debit_has_its_credit_witness:
  "ledger_ok demo_db \<and>
   debit_row ''t1'' (Some ''k1'') 1 10000 100000 90000 2 ''t2''
     \<in> set (transactions
              (run default_config demo_db
                 [OpGenerateTransferOTP 1 ''b@x.com'' 10000 ''123456'' ''ref1'' 1000,
                  OpTransfer 1 ''b@x.com'' 10000 ''123456'' ''ref1'' (Some ''k1'')
                    ''t1'' ''t2'' 2000])) \<and>
   (\<exists>!cr. cr \<in> set (transactions
                      (run default_config demo_db
                         [OpGenerateTransferOTP 1 ''b@x.com'' 10000 ''123456'' ''ref1'' 1000,
                          OpTransfer 1 ''b@x.com'' 10000 ''123456'' ''ref1'' (Some ''k1'')
                            ''t1'' ''t2'' 2000])) \<and>
          names_debit cr (debit_row ''t1'' (Some ''k1'') 1 10000 100000 90000 2 ''t2''))"
proof -
  let ?ops = "[OpGenerateTransferOTP 1 ''b@x.com'' 10000 ''123456'' ''ref1'' 1000,
               OpTransfer 1 ''b@x.com'' 10000 ''123456'' ''ref1'' (Some ''k1'')
                 ''t1'' ''t2'' 2000]"
  let ?dr = "debit_row ''t1'' (Some ''k1'') 1 10000 100000 90000 2 ''t2''"
  have ok: "ledger_ok demo_db" by (simp add: ledger_ok_def demo_db_def)
  have L: "transactions (run default_config demo_db ?ops) =
             [?dr, credit_row ''t2'' 2 10000 50000 60000 1 ''t1'']"
    by code_simp
  have m: "?dr \<in> set (transactions (run default_config demo_db ?ops))"
    unfolding L by simp
  have ty: "t_type ?dr = TRANSFER_DEBIT" by (simp add: debit_row_def)
  show ?thesis using ok m every_debit_has_its_credit [OF ok m ty] by simp
qed

text \<open>A ledger in which a second \<open>TRANSFER_CREDIT\<close> names a debit row is not of that
  form: a credit row outside a block breaks \<open>transfers_paired\<close>.\<close>

lemma stray_credit_is_excluded:
  "\<not> transfers_paired
       [debit_row ''t1'' None 1 10000 100000 90000 2 ''t2'',
        credit_row ''t2'' 2 10000 50000 60000 1 ''t1'',
        credit_row ''t2b'' 2 10000 60000 70000 1 ''t1'']"
  by (simp add: debit_row_def credit_row_def is_pair_def)

subsection \<open>addMoney and the gateway's answer\<close>

lemma addMoney_unit1_Pending:
  assumes "addMoney_unit1 cfg d userId amount pm key tid now = (Inr (Pending cb), d1)"
  shows "validateAmount cfg amount = Inr ()"
    and "checkDailyAddMoneyLimit cfg d userId amount now = Inr ()"
    and "checkIdempotency d key = None"
    and "\<exists>w. wallets d userId = Some w \<and> w_balance w = cb"
    and "insert_transaction d (pending_row tid key userId amount cb pm) = Inr d1"
  using assms
  by (auto simp: addMoney_unit1_def Let_def split: sum.splits option.splits)

lemma set_transaction_failed_appended:
  assumes "tid \<notin> transaction_id ` set L" "transaction_id row = tid"
  shows "map (\<lambda>t. if transaction_id t = tid
                   then t\<lparr>t_status := FAILED, failure_reason := Some m\<rparr> else t) (L @ [row])
         = L @ [row\<lparr>t_status := FAILED, failure_reason := Some m\<rparr>]"
proof -
  have "map (\<lambda>t. if transaction_id t = tid
                   then t\<lparr>t_status := FAILED, failure_reason := Some m\<rparr> else t) L = L"
    using assms(1) by (induction L) auto
  then show ?thesis using assms(2) by simp
qed

text \<open>
  C6, as the code has it. Suppose \<open>addMoney\<close> has committed its \<open>PENDING\<close> entry and
  calls the gateway. When the gateway answers with a failure result (which is how the
  repository's gateway reports every failure, its simulated timeout included), the
  call returns \<^verbatim>\<open>success: false\<close>, the entry becomes \<open>FAILED\<close> with the gateway's
  message as its failure reason, and the wallets and the daily totals are as before.
  When the gateway call throws instead, \<open>addMoney\<close> rethrows after a rollback that has
  nothing to undo: the wallets are as before and the entry stays as unit 1 wrote it.
\<close>

theorem gateway_failure_marks_entry_failed:
  assumes "addMoney_unit1 cfg d userId amount pm key tid now = (Inr (Pending cb), d1)"
    and "pr_success pr = False"
  shows "fst (addMoney cfg d userId amount pm key tid now (Resolved pr) now')
           = Inr \<lparr> success = False, message = pr_message pr, r_transaction_id = tid,
                   r_amount = amount, r_balance = cb, r_status = FAILED,
                   isDuplicate = False \<rparr>
       \<and> transactions (snd (addMoney cfg d userId amount pm key tid now (Resolved pr) now'))
           = transactions d @
               [(pending_row tid key userId amount cb pm)
                  \<lparr>t_status := FAILED, failure_reason := Some (pr_message pr)\<rparr>]
       \<and> wallets (snd (addMoney cfg d userId amount pm key tid now (Resolved pr) now'))
           = wallets d
       \<and> daily_limits (snd (addMoney cfg d userId amount pm key tid now (Resolved pr) now'))
           = daily_limits d
       \<and> addMoney cfg d userId amount pm key tid now Rejected now' = (Inl GatewayError, d1)
       \<and> transactions d1 = transactions d @ [pending_row tid key userId amount cb pm]
       \<and> wallets d1 = wallets d"
proof -
  note ins = addMoney_unit1_Pending(5) [OF assms(1)]
  have t1: "transactions d1 = transactions d @ [pending_row tid key userId amount cb pm]"
    and w1: "wallets d1 = wallets d" and l1: "daily_limits d1 = daily_limits d"
    by (simp_all add: insert_transaction_fields [OF ins])
  have fresh: "tid \<notin> transaction_id ` set (transactions d)"
    using insert_transaction_checks(1) [OF ins] by (simp add: pending_row_def)
  have a: "addMoney cfg d userId amount pm key tid now (Resolved pr) now'
             = addMoney_unit2 d1 userId amount pm tid cb pr now'"
    by (simp add: addMoney_def assms(1))
  have f: "transactions (set_transaction_failed d1 tid (pr_message pr))
             = transactions d @
               [(pending_row tid key userId amount cb pm)
                  \<lparr>t_status := FAILED, failure_reason := Some (pr_message pr)\<rparr>]"
    unfolding set_transaction_failed_def t1
    using set_transaction_failed_appended [OF fresh, of "pending_row tid key userId amount cb pm"]
    by (simp add: pending_row_def)
  have r: "addMoney cfg d userId amount pm key tid now Rejected now' = (Inl GatewayError, d1)"
    by (simp add: addMoney_def assms(1))
  show ?thesis
    using f r t1 w1 l1 assms(2)
    by (simp add: a addMoney_unit2_def Let_def set_transaction_failed_fields)
qed


text \<open>
  C6, as stated, fails where the gateway call throws (a timeout surfacing as a rejected
  promise): the entry is left \<open>PENDING\<close>.
\<close>

theorem gateway_exception_leaves_entry_pending:
  "fst (addMoney default_config demo_db 1 50000 UPI (Some ''k1'') ''t1'' 1000 Rejected 2000)
     = Inl GatewayError \<and>
   map (\<lambda>t. (transaction_id t, t_type t, t_status t))
       (transactions
          (snd (addMoney default_config demo_db 1 50000 UPI (Some ''k1'') ''t1'' 1000
                  Rejected 2000)))
     = [(''t1'', ADD_MONEY, PENDING)]"
  by code_simp

theorem gateway_failure_marks_entry_failed_witness:
  "pr_success declined = False \<and>
   fst (addMoney default_config demo_db 1 50000 UPI (Some ''k1'') ''t1'' 1000
          (Resolved declined) 2000)
     = Inr \<lparr> success = False, message = pr_message declined, r_transaction_id = ''t1'',
             r_amount = 50000, r_balance = 100000, r_status = FAILED,
             isDuplicate = False \<rparr> \<and>
   transactions
     (snd (addMoney default_config demo_db 1 50000 UPI (Some ''k1'') ''t1'' 1000
             (Resolved declined) 2000))
     = transactions demo_db @
         [(pending_row ''t1'' (Some ''k1'') 1 50000 100000 UPI)
            \<lparr>t_status := FAILED, failure_reason := Some (pr_message declined)\<rparr>] \<and>
   wallets
     (snd (addMoney default_config demo_db 1 50000 UPI (Some ''k1'') ''t1'' 1000
             (Resolved declined) 2000))
     = wallets demo_db"
proof -
  have f: "fst (addMoney_unit1 default_config demo_db 1 50000 UPI (Some ''k1'') ''t1'' 1000)
             = Inr (Pending 100000)"
    by code_simp
  have u: "addMoney_unit1 default_config demo_db 1 50000 UPI (Some ''k1'') ''t1'' 1000
             = (Inr (Pending 100000),
                snd (addMoney_unit1 default_config demo_db 1 50000 UPI (Some ''k1'') ''t1'' 1000))"
    using f by (simp add: prod_eq_iff)
  have p: "pr_success declined = False" by (simp add: declined_def)
  show ?thesis
    using p gateway_failure_marks_entry_failed [OF u p, of 2000] by simp
qed

subsection \<open>addMoney and the balance it commits\<close>

text \<open>With no other request between its two atomic units, a successful \<open>addMoney\<close>
  commits the balance the wallet held plus the amount.\<close>

lemma addMoney_success_alone:
  assumes "addMoney_unit1 cfg d userId amount pm key tid now = (Inr (Pending cb), d1)"
    and "pr_success pr" and "0 \<le> cb + amount"
  shows "\<exists>w. wallets d userId = Some w \<and>
           wallets (snd (addMoney cfg d userId amount pm key tid now (Resolved pr) now'))
             = (wallets d)(userId \<mapsto> w\<lparr>w_balance := w_balance w + amount\<rparr>)"
proof -
  from addMoney_unit1_Pending(4) [OF assms(1)] obtain w where
    w: "wallets d userId = Some w" "w_balance w = cb" by blast
  have w1: "wallets d1 = wallets d"
    by (simp add: insert_transaction_fields [OF addMoney_unit1_Pending(5) [OF assms(1)]])
  have "wallets (snd (addMoney cfg d userId amount pm key tid now (Resolved pr) now'))
          = (wallets d)(userId \<mapsto> w\<lparr>w_balance := w_balance w + amount\<rparr>)"
    using assms(2,3) w w1
    by (simp add: addMoney_def assms(1) addMoney_unit2_def Let_def update_wallet_balance_def
          updateDailyLimit_fields set_transaction_success_fields)
  with w(1) show ?thesis by blast
qed

text \<open>
  C7. Unit 2 of \<open>addMoney\<close> is claimed to read the wallet again under its lock and to
  commit that balance plus the amount. The code reads the wallet in unit 1 only and
  computes \<^verbatim>\<open>currentBalance + amount\<close> from that value after the gateway call. Two
  requests of 500.00 each that overlap both read 1000.00; A commits 1500.00; when B
  finalizes, the wallet holds 1500.00 and B commits 1500.00 again, not 2000.00. Both
  calls return success, the ledger shows two successful entries of 500.00, the daily
  total is 1000.00, and one deposit is lost.
\<close>

theorem addMoney_finalizes_with_stale_balance:
  "fst (addMoney_unit1 default_config demo_db 1 50000 UPI (Some ''kA'') ''tA'' 1000)
     = Inr (Pending 100000) \<and>
   fst (addMoney_unit1 default_config
          (snd (addMoney_unit1 default_config demo_db 1 50000 UPI (Some ''kA'') ''tA'' 1000))
          1 50000 CARD (Some ''kB'') ''tB'' 1100)
     = Inr (Pending 100000) \<and>
   map_option w_balance (wallets first_finalized_db 1) = Some 150000 \<and>
   fst (addMoney_unit2 first_finalized_db 1 50000 CARD ''tB'' 100000 paid 2100)
     = Inr \<lparr> success = True, message = pr_message paid, r_transaction_id = ''tB'',
             r_amount = 50000, r_balance = 150000, r_status = SUCCESS,
             isDuplicate = False \<rparr> \<and>
   map_option w_balance
     (wallets (snd (addMoney_unit2 first_finalized_db 1 50000 CARD ''tB'' 100000 paid 2100)) 1)
     = Some 150000 \<and>
   map (\<lambda>t. (transaction_id t, t_status t, t_amount t, balance_before t, balance_after t))
       (transactions
          (snd (addMoney_unit2 first_finalized_db 1 50000 CARD ''tB'' 100000 paid 2100)))
     = [(''tA'', SUCCESS, 50000, 100000, 150000), (''tB'', SUCCESS, 50000, 100000, 150000)] \<and>
   map_option total_added
     (daily_limits
        (snd (addMoney_unit2 first_finalized_db 1 50000 CARD ''tB'' 100000 paid 2100)) (1, 0))
     = Some 100000"
  by code_simp

subsection \<open>The daily add-money limit\<close>

lemma checkIdempotency_fresh_key:
  assumes "key = None \<or> key \<notin> idempotency_key ` set (transactions d)"
  shows "checkIdempotency d key = None"
proof (cases key)
  case None
  then show ?thesis by (simp add: checkIdempotency_def)
next
  case (Some k)
  with assms have "filter (\<lambda>t. idempotency_key t = Some k) (transactions d) = []"
    by (force simp: filter_empty_conv)
  then show ?thesis using Some by (simp add: checkIdempotency_def)
qed

lemma insert_transaction_fresh:
  assumes "transaction_id row \<notin> transaction_id ` set (transactions d)"
    and "idempotency_key row = None \<or> idempotency_key row \<notin> idempotency_key ` set (transactions d)"
    and "0 < t_amount row"
  shows "insert_transaction d row = Inr (d\<lparr>transactions := transactions d @ [row]\<rparr>)"
  using assms by (auto simp: insert_transaction_def)

lemma checkDailyAddMoneyLimit_eq:
  "checkDailyAddMoneyLimit cfg d userId amount now =
     (if added_so_far d userId (today now) + amount > DAILY_ADD_MONEY_LIMIT cfg
      then Inl DailyAddMoneyLimitExceeded else Inr ())"
  by (simp add: checkDailyAddMoneyLimit_def added_so_far_def Let_def)

lemma added_so_far_updateDailyLimit:
  "added_so_far (updateDailyLimit d userId TOTAL_ADDED amount now) userId (today now)
     = added_so_far d userId (today now) + amount"
  by (simp add: added_so_far_def updateDailyLimit_def Let_def split: option.splits)

lemma addMoney_unit1_proceeds:
  assumes "validateAmount cfg amount = Inr ()"
    and "checkDailyAddMoneyLimit cfg d userId amount now = Inr ()"
    and "key = None \<or> key \<notin> idempotency_key ` set (transactions d)"
    and "tid \<notin> transaction_id ` set (transactions d)"
    and "wallets d userId = Some w" and "0 < amount"
  shows "addMoney_unit1 cfg d userId amount pm key tid now =
           (Inr (Pending (w_balance w)),
            d\<lparr>transactions := transactions d @
                 [pending_row tid key userId amount (w_balance w) pm]\<rparr>)"
proof -
  have "insert_transaction d (pending_row tid key userId amount (w_balance w) pm) =
          Inr (d\<lparr>transactions := transactions d @
                 [pending_row tid key userId amount (w_balance w) pm]\<rparr>)"
    by (rule insert_transaction_fresh) (use assms(3,4,6) in \<open>simp_all add: pending_row_def\<close>)
  then show ?thesis
    using assms(1,2,5) checkIdempotency_fresh_key [OF assms(3)]
    by (simp add: addMoney_unit1_def Let_def)
qed


lemma addMoney_rejected_by_limit:
  assumes "validateAmount cfg amount = Inr ()"
    and "checkDailyAddMoneyLimit cfg d userId amount now = Inl e"
  shows "addMoney cfg d userId amount pm key tid now gw now' = (Inl e, d)"
  using assms by (simp add: addMoney_def addMoney_unit1_def)

lemma addMoney_unit1_Cached:
  assumes "addMoney_unit1 cfg d userId amount pm key tid now = (Inr (Cached c), d1)"
  shows "isDuplicate c"
  using assms checkIdempotency_isDuplicate [of d key c]
  by (auto simp: addMoney_unit1_def Let_def split: sum.splits option.splits)

text \<open>What a call of \<open>addMoney\<close> has done when it returns a success that is its own,
  not the cached answer of an earlier request: the amount passed \<open>validateAmount\<close>
  and the daily-limit check, and the day's total has grown by the amount.\<close>

lemma addMoney_fresh_success:
  assumes a: "addMoney cfg d userId amount pm key tid now gw now' = (Inr r, d1)"
    and s: "success r" and f: "\<not> isDuplicate r"
  shows "validateAmount cfg amount = Inr ()"
    and "checkDailyAddMoneyLimit cfg d userId amount now = Inr ()"
    and "added_so_far d1 userId (today now') = added_so_far d userId (today now') + amount"
    and "r_status r = SUCCESS" and "r_amount r = amount" and "r_transaction_id r = tid"
proof -
  obtain x da where u1: "addMoney_unit1 cfg d userId amount pm key tid now = (x, da)"
    by (cases "addMoney_unit1 cfg d userId amount pm key tid now")
  from a u1 f addMoney_unit1_Cached obtain cb where x: "x = Inr (Pending cb)"
    by (cases x; auto simp: addMoney_def split: unit1_outcome.splits)
  from a u1 x obtain pr where gw: "gw = Resolved pr"
    and u2: "addMoney_unit2 da userId amount pm tid cb pr now' = (Inr r, d1)"
    by (cases gw) (auto simp: addMoney_def)
  have p: "pr_success pr"
    using u2 s by (cases "pr_success pr") (auto simp: addMoney_unit2_def)
  from u2 p obtain db where up: "update_wallet_balance da (cb + amount) userId = Inr db"
    and d1: "d1 = updateDailyLimit (set_transaction_success db tid (cb + amount))
                    userId TOTAL_ADDED amount now'"
    and r: "r = \<lparr> success = True, message = pr_message pr, r_transaction_id = tid,
                  r_amount = amount, r_balance = cb + amount, r_status = SUCCESS,
                  isDuplicate = False \<rparr>"
    by (auto simp: addMoney_unit2_def Let_def split: sum.splits)
  note pend = addMoney_unit1_Pending [OF u1 [unfolded x]]
  show "validateAmount cfg amount = Inr ()" by (rule pend(1))
  show "checkDailyAddMoneyLimit cfg d userId amount now = Inr ()" by (rule pend(2))
  have "daily_limits (set_transaction_success db tid (cb + amount)) = daily_limits d"
    by (simp add: set_transaction_success_fields update_wallet_balance_fields [OF up]
          insert_transaction_fields [OF pend(5)])
  then have "added_so_far (set_transaction_success db tid (cb + amount)) userId (today now')
               = added_so_far d userId (today now')"
    by (simp add: added_so_far_def)
  then show "added_so_far d1 userId (today now') = added_so_far d userId (today now') + amount"
    unfolding d1 by (simp only: added_so_far_updateDailyLimit)
  show "r_status r = SUCCESS" "r_amount r = amount" "r_transaction_id r = tid"
    by (simp_all add: r)
qed

text \<open>The premise can be met: with bounds that admit the amount, a key and a
  transaction id not yet in the ledger, a wallet that is not in debt and a total below
  the ceiling, a call to which the gateway reports success returns a success of its
  own.\<close>

lemma addMoney_succeeds:
  assumes v: "validateAmount cfg amount = Inr ()"
    and c: "checkDailyAddMoneyLimit cfg d userId amount now = Inr ()"
    and key: "key = None \<or> key \<notin> idempotency_key ` set (transactions d)"
    and tid: "tid \<notin> transaction_id ` set (transactions d)"
    and w: "wallets d userId = Some w" and nonneg: "0 \<le> w_balance w" and pos: "0 < amount"
    and paid: "pr_success pr"
  shows "fst (addMoney cfg d userId amount pm key tid now (Resolved pr) now')
           = Inr \<lparr> success = True, message = pr_message pr, r_transaction_id = tid,
                   r_amount = amount, r_balance = w_balance w + amount,
                   r_status = SUCCESS, isDuplicate = False \<rparr>"
proof -
  let ?d1 = "d\<lparr>transactions := transactions d @
                 [pending_row tid key userId amount (w_balance w) pm]\<rparr>"
  let ?d2 = "?d1\<lparr>wallets := (wallets ?d1)(userId \<mapsto> w\<lparr>w_balance := w_balance w + amount\<rparr>)\<rparr>"
  have u1: "addMoney_unit1 cfg d userId amount pm key tid now
              = (Inr (Pending (w_balance w)), ?d1)"
    by (rule addMoney_unit1_proceeds [OF v c key tid w pos])
  have up: "update_wallet_balance ?d1 (w_balance w + amount) userId = Inr ?d2"
    using w nonneg pos by (simp add: update_wallet_balance_def)
  have "fst (addMoney_unit2 ?d1 userId amount pm tid (w_balance w) pr now')
          = Inr \<lparr> success = True, message = pr_message pr, r_transaction_id = tid,
                   r_amount = amount, r_balance = w_balance w + amount,
                   r_status = SUCCESS, isDuplicate = False \<rparr>"
    using paid up by (simp add: addMoney_unit2_def Let_def)
  then show ?thesis by (simp add: addMoney_def u1)
qed

text \<open>
  C9. Take a daily add-money ceiling of 500000.00 and a user who has added nothing
  today. An \<open>addMoney\<close> call of 300000.00 completes successfully: it returns a success
  of its own (\<open>isDuplicate\<close> false, so the deposit is the call's, not one replayed from
  the idempotency cache). Then the day's \<^verbatim>\<open>total_added\<close> is 300000.00, and a second
  \<open>addMoney\<close> of 300000.00 on the same day, whatever its other arguments and whatever
  the gateway would answer, fails with the daily-limit error and returns the database
  as the first call left it: no row is written and the total stays 300000.00, not
  600000.00. This holds for every configuration with that ceiling; that the first call
  returned success is the scenario's premise.
\<close>

theorem second_add_exceeds_daily_limit:
  assumes lim: "DAILY_ADD_MONEY_LIMIT cfg = 50000000"
    and first: "addMoney cfg d userId 30000000 pm key tid now gw now' = (Inr r, d1)"
    and succeeded: "success r" and own: "\<not> isDuplicate r"
    and zero: "added_so_far d userId (today now) = 0"
    and day: "today now' = today now" "today now2 = today now"
  shows "r_status r = SUCCESS \<and> r_amount r = 30000000
       \<and> added_so_far d1 userId (today now) = 30000000
       \<and> addMoney cfg d1 userId 30000000 pm2 key2 tid2 now2 gw2 now2'
           = (Inl DailyAddMoneyLimitExceeded, d1)"
proof -
  note fs = addMoney_fresh_success [OF first succeeded own]
  have tot: "added_so_far d1 userId (today now) = 30000000"
    using fs(3) zero day(1) by simp
  have c2: "checkDailyAddMoneyLimit cfg d1 userId 30000000 now2 = Inl DailyAddMoneyLimitExceeded"
    using lim tot day(2) by (simp add: checkDailyAddMoneyLimit_eq)
  have "addMoney cfg d1 userId 30000000 pm2 key2 tid2 now2 gw2 now2'
          = (Inl DailyAddMoneyLimitExceeded, d1)"
    by (rule addMoney_rejected_by_limit [OF fs(1) c2])
  then show ?thesis using tot fs(4,5) by simp
qed

theorem second_add_exceeds_daily_limit_witness:
  "fst (addMoney (default_config\<lparr>MAX_TRANSACTION_AMOUNT := 30000000\<rparr>) demo_db 1 30000000
          UPI (Some ''k1'') ''t1'' 1000 (Resolved paid) 2000)
     = Inr \<lparr> success = True, message = pr_message paid, r_transaction_id = ''t1'',
             r_amount = 30000000, r_balance = 30100000, r_status = SUCCESS,
             isDuplicate = False \<rparr> \<and>
   added_so_far
     (snd (addMoney (default_config\<lparr>MAX_TRANSACTION_AMOUNT := 30000000\<rparr>) demo_db 1 30000000
             UPI (Some ''k1'') ''t1'' 1000 (Resolved paid) 2000)) 1 (today 1000) = 30000000 \<and>
   addMoney (default_config\<lparr>MAX_TRANSACTION_AMOUNT := 30000000\<rparr>)
     (snd (addMoney (default_config\<lparr>MAX_TRANSACTION_AMOUNT := 30000000\<rparr>) demo_db 1
             30000000 UPI (Some ''k1'') ''t1'' 1000 (Resolved paid) 2000))
     1 30000000 CARD (Some ''k2'') ''t2'' 3000 (Resolved paid) 4000
     = (Inl DailyAddMoneyLimitExceeded,
        snd (addMoney (default_config\<lparr>MAX_TRANSACTION_AMOUNT := 30000000\<rparr>) demo_db 1
               30000000 UPI (Some ''k1'') ''t1'' 1000 (Resolved paid) 2000))"
proof -
  let ?cfg = "default_config\<lparr>MAX_TRANSACTION_AMOUNT := 30000000\<rparr>"
  let ?r = "\<lparr> success = True, message = pr_message paid, r_transaction_id = ''t1'',
              r_amount = 30000000, r_balance = 30100000, r_status = SUCCESS,
              isDuplicate = False \<rparr>"
  let ?d1 = "snd (addMoney ?cfg demo_db 1 30000000 UPI (Some ''k1'') ''t1'' 1000
                    (Resolved paid) 2000)"
  have lim: "DAILY_ADD_MONEY_LIMIT ?cfg = 50000000" by (simp add: default_config_def)
  have f: "fst (addMoney ?cfg demo_db 1 30000000 UPI (Some ''k1'') ''t1'' 1000
                  (Resolved paid) 2000) = Inr ?r"
    by code_simp
  then have first: "addMoney ?cfg demo_db 1 30000000 UPI (Some ''k1'') ''t1'' 1000
                      (Resolved paid) 2000 = (Inr ?r, ?d1)"
    by (simp add: prod_eq_iff)
  have succeeded: "success ?r" and own: "\<not> isDuplicate ?r" by simp_all
  have zero: "added_so_far demo_db 1 (today 1000) = 0"
    by (simp add: added_so_far_def demo_db_def)
  have day: "today 2000 = today 1000" "today 3000 = today 1000" by (simp_all add: today_def)
  show ?thesis
    using f second_add_exceeds_daily_limit [OF lim first succeeded own zero day,
            of CARD "Some ''k2''" "''t2''" "Resolved paid" 4000]
    by simp
qed

text \<open>Under the constants of \<^verbatim>\<open>constants.js\<close> the premise is not met by any call:
  300000.00 is above the per-transaction maximum of 200000.00, so \<open>validateAmount\<close>
  rejects the first call before the daily-limit check, and nothing is added. The
  scenario therefore needs a configuration whose maximum admits the amount, as the one
  above.\<close>

lemma default_maximum_refuses_300000:
  "DAILY_ADD_MONEY_LIMIT default_config = 50000000 \<and>
   MAX_TRANSACTION_AMOUNT default_config = 20000000 \<and>
   addMoney default_config d userId 30000000 pm key tid now gw now' = (Inl MaximumAmount, d)"
  by (simp add: addMoney_def addMoney_unit1_def validateAmount_def default_config_def)

subsection \<open>transfer and the amount bounds\<close>








text \<open>The amount 0 is no accident. The debit row of a transfer passes the ledger's
  check \<^verbatim>\<open>amount > 0\<close>, so no transfer of zero or of a negative amount commits: it
  leaves the database as it was, and unless its idempotency key is already in the ledger
  (then the cached entry is returned) it fails, on whichever check comes first.\<close>

lemma transfer_unit_positive:
  assumes "transfer_unit d userId toEmail amount otpId key debitId creditId now = Inr (r, d')"
  shows "0 < amount"
  using assms
proof (cases rule: transfer_unit_InrE)
  case (committed recipient rest sw rw d1 d2 d3 d4)
  from insert_transaction_checks(3) [OF committed(7)] show ?thesis
    by (simp add: debit_row_def)
qed

lemma transfer_of_nonpositive_amount_never_commits:
  assumes "amount \<le> 0"
  shows "snd (transfer d userId toEmail amount otp referenceId key debitId creditId now) = d"
    and "checkIdempotency d key = None \<Longrightarrow>
         \<exists>e. fst (transfer d userId toEmail amount otp referenceId key debitId creditId now) = Inl e"
  using assms transfer_unit_positive [of d userId toEmail amount _ key debitId creditId now]
  by (auto simp: transfer_def split: list.splits option.splits sum.splits)

subsection \<open>Redeeming an OTP: one after the other, and overlapping\<close>

lemma transfer_without_live_otp:
  assumes "\<forall>row \<in> set (otps d). \<not> otp_matches userId referenceId otp now row"
  shows "transfer d userId toEmail amount otp referenceId key debitId creditId now
           = (Inl InvalidOrExpiredOTP, d)"
proof -
  have "select_otps d userId referenceId otp now = []"
    using assms by (simp add: select_otps_def filter_empty_conv)
  then show ?thesis by (simp add: transfer_def)
qed

lemma ref_spent_refuses:
  assumes "ref_spent d referenceId"
  shows "transfer d userId toEmail amount otp referenceId key debitId creditId now
           = (Inl InvalidOrExpiredOTP, d)"
  by (rule transfer_without_live_otp) (use assms in \<open>auto simp: ref_spent_def otp_matches_def\<close>)

lemma mark_otp_used_ref_spent:
  assumes "ref_spent d ref"
  shows "ref_spent (mark_otp_used d i) ref"
  unfolding ref_spent_def
proof
  fix row
  assume "row \<in> set (otps (mark_otp_used d i))"
  then have "row \<in> set (otps d) \<or> (i < length (otps d) \<and> row = (otps d ! i)\<lparr>is_used := True\<rparr>)"
    using set_update_subset_insert [of "otps d" i "(otps d ! i)\<lparr>is_used := True\<rparr>"]
    by (auto simp: mark_otp_used_def split: if_splits)
  then show "reference_id row = ref \<longrightarrow> is_used row"
    using assms by (auto simp: ref_spent_def)
qed

lemma at_most_one_index:
  "length (filter P xs) \<le> 1 \<Longrightarrow> i < length xs \<Longrightarrow> k < length xs \<Longrightarrow> P (xs ! i) \<Longrightarrow> P (xs ! k)
   \<Longrightarrow> i = k"
proof (induction xs arbitrary: i k)
  case Nil
  then show ?case by simp
next
  case (Cons x xs)
  show ?case
  proof (cases "P x")
    case True
    with Cons.prems(1) have e: "filter P xs = []" by simp
    have "i = 0"
    proof (rule ccontr)
      assume "i \<noteq> 0"
      then obtain i' where "i = Suc i'" by (cases i) auto
      with Cons.prems(2,4) have "xs ! i' \<in> set xs" "P (xs ! i')" by auto
      with e show False by (auto simp: filter_empty_conv)
    qed
    moreover have "k = 0"
    proof (rule ccontr)
      assume "k \<noteq> 0"
      then obtain k' where "k = Suc k'" by (cases k) auto
      with Cons.prems(3,5) have "xs ! k' \<in> set xs" "P (xs ! k')" by auto
      with e show False by (auto simp: filter_empty_conv)
    qed
    ultimately show ?thesis by simp
  next
    case False
    with Cons.prems(4,5) obtain i' k' where ik: "i = Suc i'" "k = Suc k'"
      by (cases i; cases k) auto
    with Cons.prems False have "i' = k'"
      by (intro Cons.IH) auto
    with ik show ?thesis by simp
  qed
qed

lemma redeemed_ref_spent:
  assumes "length (filter (\<lambda>row. reference_id row = ref) (otps d)) \<le> 1"
    and "j < length (otps d)" and "reference_id (otps d ! j) = ref"
  shows "ref_spent (mark_otp_used d j) ref"
  unfolding ref_spent_def
proof
  fix row
  assume "row \<in> set (otps (mark_otp_used d j))"
  then obtain k where k: "k < length (otps d)"
      "row = (otps d)[j := (otps d ! j)\<lparr>is_used := True\<rparr>] ! k"
    using assms(2) by (auto simp: mark_otp_used_def in_set_conv_nth)
  show "reference_id row = ref \<longrightarrow> is_used row"
  proof
    assume r: "reference_id row = ref"
    show "is_used row"
    proof (cases "k = j")
      case True
      then show ?thesis using k assms(2) by simp
    next
      case False
      then have "row = otps d ! k" using k by simp
      with r have "reference_id (otps d ! k) = ref" by simp
      from at_most_one_index [OF assms(1) k(1) assms(2) this assms(3)] False
      show ?thesis by simp
    qed
  qed
qed

lemma transfer_ref_spent:
  assumes "ref_spent d ref"
  shows "ref_spent (snd (transfer d userId toEmail amount otp referenceId key debitId creditId now)) ref"
proof (cases "transfer d userId toEmail amount otp referenceId key debitId creditId now")
  case (Pair res d')
  show ?thesis
  proof (cases res)
    case (Inl e)
    then have "d' = d" using Pair transfer_Inl_unchanged by blast
    then show ?thesis using assms Pair by simp
  next
    case (Inr resp)
    from transfer_Inr_cases [OF Pair [unfolded Inr]] obtain otpId where
      "d' = d \<or> transfer_unit d userId toEmail amount otpId key debitId creditId now = Inr (resp, d')"
      by blast
    then show ?thesis
    proof
      assume "d' = d"
      then show ?thesis using assms Pair by simp
    next
      assume "transfer_unit d userId toEmail amount otpId key debitId creditId now = Inr (resp, d')"
      then have "otps d' = otps (mark_otp_used d otpId)" by (rule transfer_unit_otps)
      then have "ref_spent d' ref = ref_spent (mark_otp_used d otpId) ref"
        by (simp add: ref_spent_def)
      then show ?thesis using mark_otp_used_ref_spent [OF assms] Pair by simp
    qed
  qed
qed

lemma generateTransferOTP_ref_spent:
  assumes "ref_spent d ref" "referenceId \<noteq> ref"
  shows "ref_spent (snd (generateTransferOTP cfg d userId toEmail amount otp referenceId now)) ref"
  using assms
  by (auto simp: generateTransferOTP_def Let_def ref_spent_def
           split: sum.splits list.splits option.splits if_splits)

lemma exec_ref_spent:
  assumes "ref_spent d ref" "\<not> reissues ref x"
  shows "ref_spent (exec cfg d x) ref"
proof (cases x)
  case (OpGetBalance u)
  then show ?thesis using assms by simp
next
  case (OpAddMoney u a pm key tid now gw now')
  then show ?thesis using assms by (simp add: ref_spent_def addMoney_otps)
next
  case (OpGenerateTransferOTP u e a otp r now)
  then show ?thesis using assms generateTransferOTP_ref_spent by simp
next
  case (OpTransfer u e a otp r key did cid now)
  then show ?thesis using assms transfer_ref_spent by simp
qed

lemma run_ref_spent:
  "ref_spent d ref \<Longrightarrow> \<forall>x \<in> set ops. \<not> reissues ref x \<Longrightarrow> ref_spent (run cfg d ops) ref"
  unfolding run_def by (induction ops arbitrary: d) (simp_all add: exec_ref_spent)


text \<open>
  Requests served one after the other. (1) Once a transfer has run with an OTP (it
  returned a result that is not a cached one), every transfer attempt that starts after
  it has committed, with the same sender, reference id and code, fails with the OTP
  error and leaves the database as it was, whatever requests were served in between.
  Reference ids are drawn by \<^verbatim>\<open>uuidv4()\<close>: the statement assumes that at most one OTP
  row carries this reference id and that no later request draws it again. (2) A
  transfer attempted when every OTP row for (sender, reference id, code) has
  \<^verbatim>\<open>expires_at\<close> at or before the current time fails with the OTP error and leaves the
  database as it was, used or not. (3) A transfer that fails, for whatever reason,
  leaves the whole database, the OTP rows included, unchanged.
\<close>

lemma used_or_expired_otp_is_refused:
  "(transfer d userId toEmail amount otp referenceId key debitId creditId now = (Inr r, d')
      \<and> \<not> isDuplicate r
      \<and> length (filter (\<lambda>row. reference_id row = referenceId) (otps d)) \<le> 1
      \<and> (\<forall>x \<in> set ops. \<not> reissues referenceId x)
    \<longrightarrow> transfer (run cfg d' ops) userId toEmail2 amount2 otp referenceId key2 debitId2
          creditId2 now2
        = (Inl InvalidOrExpiredOTP, run cfg d' ops))
   \<and> ((\<forall>row \<in> set (otps dx).
          o_user_id row = userIdx \<and> reference_id row = referenceIdx \<and> otp_code row = otpx
          \<longrightarrow> expires_at row \<le> nowx)
      \<longrightarrow> transfer dx userIdx toEmailx amountx otpx referenceIdx keyx debitIdx creditIdx nowx
          = (Inl InvalidOrExpiredOTP, dx))
   \<and> (fst (transfer dy userIdy toEmaily amounty otpy referenceIdy keyy debitIdy creditIdy nowy)
          = Inl e
      \<longrightarrow> snd (transfer dy userIdy toEmaily amounty otpy referenceIdy keyy debitIdy creditIdy
               nowy) = dy)"
proof (intro conjI impI)
  assume a: "transfer d userId toEmail amount otp referenceId key debitId creditId now = (Inr r, d')
      \<and> \<not> isDuplicate r
      \<and> length (filter (\<lambda>row. reference_id row = referenceId) (otps d)) \<le> 1
      \<and> (\<forall>x \<in> set ops. \<not> reissues referenceId x)"
  from transfer_fresh_Inr [of d userId toEmail amount otp referenceId key debitId creditId now r d']
    a obtain j js where
    so: "select_otps d userId referenceId otp now = j # js" and
    tu: "transfer_unit d userId toEmail amount j key debitId creditId now = Inr (r, d')"
    by blast
  from select_otps_row [OF so] have j: "j < length (otps d)"
    "reference_id (otps d ! j) = referenceId"
    by (simp_all add: otp_matches_def)
  have "ref_spent (mark_otp_used d j) referenceId"
    using redeemed_ref_spent [OF _ j] a by blast
  then have "ref_spent d' referenceId"
    using transfer_unit_otps [OF tu] by (simp add: ref_spent_def)
  then have "ref_spent (run cfg d' ops) referenceId"
    using run_ref_spent a by blast
  then show "transfer (run cfg d' ops) userId toEmail2 amount2 otp referenceId key2 debitId2
          creditId2 now2
        = (Inl InvalidOrExpiredOTP, run cfg d' ops)"
    by (rule ref_spent_refuses)
next
  assume "\<forall>row \<in> set (otps dx).
          o_user_id row = userIdx \<and> reference_id row = referenceIdx \<and> otp_code row = otpx
          \<longrightarrow> expires_at row \<le> nowx"
  then have "\<forall>row \<in> set (otps dx). \<not> otp_matches userIdx referenceIdx otpx nowx row"
    by (auto simp: otp_matches_def)
  then show "transfer dx userIdx toEmailx amountx otpx referenceIdx keyx debitIdx creditIdx nowx
          = (Inl InvalidOrExpiredOTP, dx)"
    by (rule transfer_without_live_otp)
next
  assume "fst (transfer dy userIdy toEmaily amounty otpy referenceIdy keyy debitIdy creditIdy nowy)
          = Inl e"
  then have "transfer dy userIdy toEmaily amounty otpy referenceIdy keyy debitIdy creditIdy nowy
      = (Inl e, snd (transfer dy userIdy toEmaily amounty otpy referenceIdy keyy debitIdy
                       creditIdy nowy))"
    by (simp add: prod_eq_iff)
  then show "snd (transfer dy userIdy toEmaily amounty otpy referenceIdy keyy debitIdy creditIdy
               nowy) = dy"
    by (rule transfer_Inl_unchanged)
qed

lemma used_or_expired_otp_is_refused_example:
  "fst (transfer otp_issued_db 1 ''b@x.com'' 10000 ''123456'' ''ref1'' (Some ''k1'')
          ''t1'' ''t2'' 2000)
     = Inr (transfer_response ''t1'' 10000 90000) \<and>
   transfer
     (run default_config transferred_db
        [OpGetBalance 1,
         OpGenerateTransferOTP 2 ''c@x.com'' 10000 ''777777'' ''ref2'' 2500])
     1 ''c@x.com'' 20000 ''123456'' ''ref1'' (Some ''k2'') ''t3'' ''t4'' 3000
     = (Inl InvalidOrExpiredOTP,
        run default_config transferred_db
          [OpGetBalance 1,
           OpGenerateTransferOTP 2 ''c@x.com'' 10000 ''777777'' ''ref2'' 2500]) \<and>
   map (\<lambda>row. (is_used row, expires_at row)) (otps otp_issued_db) = [(False, 301000)] \<and>
   transfer otp_issued_db 1 ''b@x.com'' 10000 ''123456'' ''ref1'' (Some ''k1'') ''t1'' ''t2''
     301000
     = (Inl InvalidOrExpiredOTP, otp_issued_db) \<and>
   fst (transfer otp_issued_db 1 ''b@x.com'' 10000 ''999999'' ''ref1'' (Some ''k1'')
          ''t1'' ''t2'' 2000)
     = Inl InvalidOrExpiredOTP \<and>
   snd (transfer otp_issued_db 1 ''b@x.com'' 10000 ''999999'' ''ref1'' (Some ''k1'')
          ''t1'' ''t2'' 2000)
     = otp_issued_db"
proof -
  let ?ops = "[OpGetBalance 1,
               OpGenerateTransferOTP 2 ''c@x.com'' 10000 ''777777'' ''ref2'' 2500]"
  have f: "fst (transfer otp_issued_db 1 ''b@x.com'' 10000 ''123456'' ''ref1'' (Some ''k1'')
                  ''t1'' ''t2'' 2000)
             = Inr (transfer_response ''t1'' 10000 90000)"
    by code_simp
  have s: "snd (transfer otp_issued_db 1 ''b@x.com'' 10000 ''123456'' ''ref1'' (Some ''k1'')
                  ''t1'' ''t2'' 2000) = transferred_db"
    by (simp add: transferred_db_def run_def)
  have t: "transfer otp_issued_db 1 ''b@x.com'' 10000 ''123456'' ''ref1'' (Some ''k1'')
             ''t1'' ''t2'' 2000
           = (Inr (transfer_response ''t1'' 10000 90000), transferred_db)"
    using f s by (simp add: prod_eq_iff)
  have nd: "\<not> isDuplicate (transfer_response ''t1'' 10000 90000)"
    by (simp add: transfer_response_def)
  have rows: "otps otp_issued_db =
      [\<lparr> o_user_id = 1, otp_code = ''123456'', purpose = ''TRANSFER'',
          reference_id = ''ref1'', is_used = False, expires_at = 301000 \<rparr>]"
    by code_simp
  have one: "length (filter (\<lambda>row. reference_id row = ''ref1'') (otps otp_issued_db)) \<le> 1"
    by (simp add: rows)
  have fresh: "\<forall>x \<in> set ?ops. \<not> reissues ''ref1'' x" by simp
  have ex: "\<forall>row \<in> set (otps otp_issued_db).
              o_user_id row = 1 \<and> reference_id row = ''ref1'' \<and> otp_code row = ''123456''
              \<longrightarrow> expires_at row \<le> 301000"
    by (simp add: rows)
  have w: "fst (transfer otp_issued_db 1 ''b@x.com'' 10000 ''999999'' ''ref1'' (Some ''k1'')
          ''t1'' ''t2'' 2000) = Inl InvalidOrExpiredOTP"
    by code_simp
  have m: "map (\<lambda>row. (is_used row, expires_at row)) (otps otp_issued_db) = [(False, 301000)]"
    by code_simp
  show ?thesis
    using f m w
      used_or_expired_otp_is_refused
        [of otp_issued_db 1 "''b@x.com''" 10000 "''123456''" "''ref1''" "Some ''k1''" "''t1''"
            "''t2''" 2000 "transfer_response ''t1'' 10000 90000" transferred_db ?ops
            default_config "''c@x.com''" 20000 "Some ''k2''" "''t3''" "''t4''" 3000
            otp_issued_db 1 "''ref1''" "''123456''" 301000 "''b@x.com''" 10000 "Some ''k1''"
            "''t1''" "''t2''"
            otp_issued_db 1 "''b@x.com''" 10000 "''999999''" "''ref1''" "Some ''k1''" "''t1''"
            "''t2''" 2000 InvalidOrExpiredOTP]
      t nd one fresh ex
    by simp
qed

text \<open>
  C8. An OTP that has been redeemed can be redeemed again by a request that overlaps the
  first. \<open>transfer\<close> looks the OTP up before its atomic unit opens, and the unit marks
  the row used by its id alone, without reading \<^verbatim>\<open>is_used\<close> again. Alice holds one
  unused OTP (row 0). Her requests A (100.00 to Bob) and B (200.00 to Carol) both look
  it up while it is unused and both find row 0; neither idempotency key is in the
  ledger. A's unit commits and marks the row used: a lookup made now finds nothing. B's
  unit, which carries the row id it read before, commits all the same and returns
  success: Alice has paid 300.00 in two transfers on one OTP, the ledger holds two
  debit rows with their credit rows, and the OTP row is simply marked used once more.
\<close>

theorem overlapping_transfers_redeem_one_otp_twice:
  "map is_used (otps otp_issued_db) = [False] \<and>
   select_otps otp_issued_db 1 ''ref1'' ''123456'' 2000 = [0] \<and>
   select_otps otp_issued_db 1 ''ref1'' ''123456'' 2050 = [0] \<and>
   checkIdempotency otp_issued_db (Some ''k1'') = None \<and>
   checkIdempotency otp_issued_db (Some ''k2'') = None \<and>
   map_sum id fst
     (transfer_unit otp_issued_db 1 ''b@x.com'' 10000 0 (Some ''k1'') ''t1'' ''t2'' 2000)
     = Inr (transfer_response ''t1'' 10000 90000) \<and>
   fst (transfer otp_issued_db 1 ''b@x.com'' 10000 ''123456'' ''ref1'' (Some ''k1'')
          ''t1'' ''t2'' 2000)
     = Inr (transfer_response ''t1'' 10000 90000) \<and>
   map is_used (otps transferred_db) = [True] \<and>
   select_otps transferred_db 1 ''ref1'' ''123456'' 2100 = [] \<and>
   checkIdempotency transferred_db (Some ''k2'') = None \<and>
   map_sum id fst
     (transfer_unit transferred_db 1 ''c@x.com'' 20000 0 (Some ''k2'') ''t3'' ''t4'' 2100)
     = Inr (transfer_response ''t3'' 20000 70000) \<and>
   map (\<lambda>u. map_option w_balance (wallets otp_issued_db u)) [1, 2, 3]
     = [Some 100000, Some 50000, Some 0] \<and>
   map (\<lambda>u. map_option w_balance (wallets overlapped_db u)) [1, 2, 3]
     = [Some 70000, Some 60000, Some 20000] \<and>
   map (\<lambda>t. (transaction_id t, t_type t, t_user_id t, t_amount t, t_status t))
     (transactions overlapped_db)
     = [(''t1'', TRANSFER_DEBIT, 1, 10000, SUCCESS), (''t2'', TRANSFER_CREDIT, 2, 10000, SUCCESS),
        (''t3'', TRANSFER_DEBIT, 1, 20000, SUCCESS), (''t4'', TRANSFER_CREDIT, 3, 20000, SUCCESS)] \<and>
   map is_used (otps overlapped_db) = [True]"
  by code_simp

subsection \<open>The repository's service tests, on the model\<close>

text \<open>The expectations of \<^verbatim>\<open>tests/walletService.test.js\<close> that do not depend on a
  third decimal, evaluated on the example database (the test's two users hold 1000.00
  and 500.00, as Alice and Bob do).\<close>

lemma test_validate_minimum_amount:
  "fst (addMoney default_config demo_db 1 5000 UPI (Some ''k1'') ''t1'' 1000 (Resolved paid) 2000)
     = Inl MinimumAmount"
  by code_simp

lemma test_validate_maximum_amount:
  "fst (addMoney default_config demo_db 1 30000000 UPI (Some ''k1'') ''t1'' 1000
          (Resolved paid) 2000)
     = Inl MaximumAmount"
  by code_simp

lemma test_idempotent_requests:
  "map_sum id (\<lambda>r. (isDuplicate r, r_transaction_id r))
     (fst (addMoney default_config
             (snd (addMoney default_config demo_db 1 50000 UPI (Some ''k1'') ''t1'' 1000
                     (Resolved paid) 2000))
             1 50000 UPI (Some ''k1'') ''t2'' 3000 (Resolved paid) 4000))
     = Inr (True, ''t1'') \<and>
   map_sum id (\<lambda>r. (isDuplicate r, r_transaction_id r))
     (fst (addMoney default_config
             (snd (addMoney default_config demo_db 1 50000 UPI (Some ''k1'') ''t1'' 1000
                     (Resolved declined) 2000))
             1 50000 UPI (Some ''k1'') ''t2'' 3000 (Resolved paid) 4000))
     = Inr (True, ''t1'')"
  by code_simp

lemma test_prevent_negative_balance:
  "fst (transfer otp_fixture_db 2 ''a@x.com'' 100000 ''123456'' ''ref9'' (Some ''k1'')
          ''t1'' ''t2'' 2000)
     = Inl InsufficientBalance"
  by code_simp

lemma test_prevent_self_transfer:
  "fst (generateTransferOTP default_config demo_db 1 ''a@x.com'' 10000 ''123456'' ''ref1'' 1000)
     = Inl CannotTransferToYourself"
  by code_simp

lemma test_recipient_exists:
  "fst (generateTransferOTP default_config demo_db 1 ''nobody@x.com'' 10000 ''123456''
          ''ref1'' 1000)
     = Inl RecipientNotFound"
  by code_simp

lemma test_require_valid_otp:
  "fst (transfer demo_db 1 ''b@x.com'' 10000 ''999999'' ''ref1'' (Some ''k1'') ''t1'' ''t2'' 2000)
     = Inl InvalidOrExpiredOTP"
  by code_simp

lemma test_balance_operations:
  "map_sum id w_currency (getBalance demo_db 1) = Inr ''INR'' \<and>
   getBalance demo_db 9 = Inl WalletNotFound"
  by code_simp

end
